theory Spec2Isabelle
  imports Complex_Main "HOL-Library.Monad_Syntax"
begin

section \<open>Tensors along one axis\<close>

text \<open>
  The functions of \<^verbatim>\<open>dillnet.py\<close> work on torch tensors. A tensor is modelled by its
  leading axis: a list whose entries are the sub-tensors at each position of that axis,
  a scalar being a \<open>real\<close> (floating-point numbers are idealised as real numbers).
  The elementwise product and sum of two tensors of the same shape are \<open>*\<close> and \<open>+\<close>;
  on lists they act entry by entry.
\<close>

instantiation list :: (times) times
begin
definition times_list :: "'a list \<Rightarrow> 'a list \<Rightarrow> 'a list" where
  "times_list xs ys = map2 (*) xs ys"
instance ..
end

instantiation list :: (plus) plus
begin
definition plus_list :: "'a list \<Rightarrow> 'a list \<Rightarrow> 'a list" where
  "plus_list xs ys = map2 (+) xs ys"
instance ..
end

text \<open>\<^verbatim>\<open>torch.addcmul(t, t1, t2)\<close> with the default \<^verbatim>\<open>value=1\<close>.\<close>

definition addcmul :: "'a::{times,plus} \<Rightarrow> 'a \<Rightarrow> 'a \<Rightarrow> 'a" where
  "addcmul t t1 t2 = t + t1 * t2"

text \<open>
  Python's slice \<^verbatim>\<open>xs[start:stop]\<close> along the leading axis: a negative index counts from
  the end, every index is clamped into \<open>0..len\<close>, and a missing bound is \<open>None\<close>.
\<close>

definition norm_index :: "nat \<Rightarrow> int \<Rightarrow> nat" where
  "norm_index n i = nat (if i < 0 then max 0 (int n + i) else min (int n) i)"

definition slice :: "'a list \<Rightarrow> int option \<Rightarrow> int option \<Rightarrow> 'a list" where
  "slice xs start stop =
     (let n = length xs;
          lo = (case start of None \<Rightarrow> 0 | Some i \<Rightarrow> norm_index n i);
          hi = (case stop of None \<Rightarrow> n | Some j \<Rightarrow> norm_index n j)
      in drop lo (take hi xs))"

section \<open>The associative scan engine\<close>

text \<open>\<^verbatim>\<open>binary_operator\<close> (lines 76-79): composition of two affine maps, elementwise.\<close>

definition binary_operator :: "'a::{times,plus} \<times> 'a \<Rightarrow> 'a \<times> 'a \<Rightarrow> 'a \<times> 'a" where
  "binary_operator q_i q_j =
     (case q_i of (A_i, Bu_i) \<Rightarrow> case q_j of (A_j, Bu_j) \<Rightarrow>
        (A_j * A_i, addcmul Bu_j A_j Bu_i))"

text \<open>
  The first loop of \<^verbatim>\<open>associative_scan\<close> (lines 90-98): its body (lines 91-96), and the
  loop. \<^verbatim>\<open>stride\<close> is a Python integer that the loop doubles; a loop entered with a
  stride that is not positive would never end, so the loop is a partial function and
  \<open>None\<close> stands for not returning.
\<close>

definition up_step :: "int \<Rightarrow> ('a::{times,plus}) list \<times> 'a list \<Rightarrow> 'a list \<times> 'a list" where
  "up_step stride scanned_elems =
     (let A_a = slice (fst scanned_elems) None (Some (- stride));
          Bu_a = slice (snd scanned_elems) None (Some (- stride));
          A_b = slice (fst scanned_elems) (Some stride) None;
          Bu_b = slice (snd scanned_elems) (Some stride) None;
          res = binary_operator (A_a, Bu_a) (A_b, Bu_b);
          new_A = slice (fst scanned_elems) None (Some stride) @ fst res;
          new_Bu = slice (snd scanned_elems) None (Some stride) @ snd res
      in (new_A, new_Bu))"

partial_function (option) up_sweep ::
  "int \<Rightarrow> int \<Rightarrow> ('a::{times,plus}) list \<times> 'a list \<Rightarrow> (int \<times> 'a list \<times> 'a list) option" where
  "up_sweep num_elems stride scanned_elems =
     (if stride < num_elems then up_sweep num_elems (stride * 2) (up_step stride scanned_elems)
      else Some (stride, scanned_elems))"

text \<open>
  The second loop (lines 101-109): its body (lines 102-107), and the loop; the stride is
  halved until it reaches 0.
\<close>

definition down_step :: "int \<Rightarrow> ('a::{times,plus}) list \<times> 'a list \<Rightarrow> 'a list \<times> 'a list" where
  "down_step stride scanned_elems =
     (let A_prev = slice (fst scanned_elems) (Some (stride - 1)) (Some (- stride));
          Bu_prev = slice (snd scanned_elems) (Some (stride - 1)) (Some (- stride));
          A_curr = slice (fst scanned_elems) (Some (2 * stride - 1)) None;
          Bu_curr = slice (snd scanned_elems) (Some (2 * stride - 1)) None;
          res = binary_operator (A_prev, Bu_prev) (A_curr, Bu_curr);
          new_A = slice (fst scanned_elems) None (Some (2 * stride - 1)) @ fst res;
          new_Bu = slice (snd scanned_elems) None (Some (2 * stride - 1)) @ snd res
      in (new_A, new_Bu))"

function down_sweep :: "int \<Rightarrow> ('a::{times,plus}) list \<times> 'a list \<Rightarrow> 'a list \<times> 'a list" where
  "down_sweep stride scanned_elems =
     (if stride > 0 then down_sweep (stride div 2) (down_step stride scanned_elems)
      else scanned_elems)"
  by pat_completeness auto
termination
  by (relation "measure (\<lambda>(stride, scanned_elems). nat stride)") auto

text \<open>
  \<^verbatim>\<open>associative_scan\<close> (lines 82-111). The two clones are copies with the same values.
\<close>

definition associative_scan :: "('a::{times,plus}) list \<times> 'a list \<Rightarrow> ('a list \<times> 'a list) option" where
  "associative_scan elems =
     (let scanned_elems = (fst elems, snd elems);
          num_elems = int (length (fst scanned_elems))
      in if num_elems \<le> 1 then Some scanned_elems
         else do {
           (stride, scanned_elems) \<leftarrow> up_sweep num_elems 1 scanned_elems;
           let stride = stride div 2;
           Some (down_sweep stride scanned_elems)
         })"

text \<open>
  The reference of the specification: the sequential recurrence
  \<open>h\<^sub>t = A\<^sub>t * h\<^sub>t\<^sub>-\<^sub>1 + Bu\<^sub>t\<close> from a given previous state, and the naive left fold of
  \<open>binary_operator\<close> over the pairs, which keeps every prefix.
\<close>

fun sequential_recurrence :: "'a::{times,plus} \<Rightarrow> 'a list \<Rightarrow> 'a list \<Rightarrow> 'a list" where
  "sequential_recurrence h (a # as) (b # bs) = (a * h + b) # sequential_recurrence (a * h + b) as bs"
| "sequential_recurrence h _ _ = []"

fun fold_prefixes :: "'a::{times,plus} \<times> 'a \<Rightarrow> ('a \<times> 'a) list \<Rightarrow> ('a \<times> 'a) list" where
  "fold_prefixes acc [] = []"
| "fold_prefixes acc (q # qs) = binary_operator acc q # fold_prefixes (binary_operator acc q) qs"

definition sequential_fold :: "('a::{times,plus}) list \<times> 'a list \<Rightarrow> 'a list \<times> 'a list" where
  "sequential_fold elems =
     (case zip (fst elems) (snd elems) of
        [] \<Rightarrow> ([], [])
      | q # qs \<Rightarrow> (map fst (q # fold_prefixes q qs), map snd (q # fold_prefixes q qs)))"

text \<open>
  For the analysis of the first loop: the fold of \<^verbatim>\<open>binary_operator\<close> over the window of
  at most \<open>s\<close> pairs that ends at position \<open>k\<close>, and the state of the loop in which
  every position holds the fold of its window.
\<close>

definition window_fold :: "('a::{times,plus} \<times> 'a) list \<Rightarrow> nat \<Rightarrow> nat \<Rightarrow> 'a \<times> 'a" where
  "window_fold qs s k =
     (let lo = k + 1 - s in foldl binary_operator (qs ! lo) (map (\<lambda>i. qs ! i) [lo + 1..<k + 1]))"

definition scanned_windows ::
  "('a::{times,plus} \<times> 'a) list \<Rightarrow> nat \<Rightarrow> 'a list \<times> 'a list \<Rightarrow> bool" where
  "scanned_windows qs s se \<longleftrightarrow>
     length (fst se) = length qs \<and> length (snd se) = length qs \<and>
     (\<forall>k<length qs. (fst se ! k, snd se ! k) = window_fold qs s k)"

section \<open>Activation functions\<close>

text \<open>
  \<^verbatim>\<open>torch.sigmoid\<close>, \<^verbatim>\<open>F.silu\<close> and \<^verbatim>\<open>F.softplus\<close> (with its defaults \<^verbatim>\<open>beta=1\<close>,
  \<^verbatim>\<open>threshold=20\<close>: above the threshold the function is the identity).
\<close>

definition sigmoid :: "real \<Rightarrow> real" where
  "sigmoid x = 1 / (1 + exp (- x))"

definition silu :: "real \<Rightarrow> real" where
  "silu x = x * sigmoid x"

definition softplus :: "real \<Rightarrow> real" where
  "softplus x = (if x > 20 then x else ln (1 + exp x))"

section \<open>Rotary position encoding\<close>

text \<open>\<^verbatim>\<open>torch.arange(0, end, 2)\<close>.\<close>

definition arange2 :: "nat \<Rightarrow> nat list" where
  "arange2 end = map (\<lambda>k. 2 * k) [0..<(end + 1) div 2]"

text \<open>\<^verbatim>\<open>RotaryEmbedding.__init__\<close> (lines 22-25): the buffer \<^verbatim>\<open>inv_freq\<close>.\<close>

definition RotaryEmbedding_init :: "nat \<Rightarrow> real list" where
  "RotaryEmbedding_init dim' = map (\<lambda>i. 1 / (10000 powr (real i / real dim'))) (arange2 dim')"

text \<open>The strided slices \<^verbatim>\<open>x[..., ::2]\<close> and \<^verbatim>\<open>x[..., 1::2]\<close> of one row.\<close>

fun evens :: "'a list \<Rightarrow> 'a list" where
  "evens (a # b # xs) = a # evens xs"
| "evens xs = xs"

fun odds :: "'a list \<Rightarrow> 'a list" where
  "odds (a # b # xs) = b # odds xs"
| "odds xs = []"

text \<open>
  \<^verbatim>\<open>torch.stack((a, b), dim=-1).flatten(-2)\<close> on one row: the entries of \<open>a\<close> and \<open>b\<close>
  alternate. (torch raises when the two differ in length; see the shape semantics.)
\<close>

definition stack_flatten :: "'a list \<Rightarrow> 'a list \<Rightarrow> 'a list" where
  "stack_flatten a b = concat (map2 (\<lambda>p q. [p, q]) a b)"

text \<open>
  \<^verbatim>\<open>RotaryEmbedding.forward\<close> (lines 27-37) on a tensor of four axes
  (batch, heads, time, dim). \<^verbatim>\<open>cos\<close> and \<^verbatim>\<open>sin\<close> have the axes (1, 1, time, dim), so every
  (time, dim) matrix of \<open>x\<close> meets the same two matrices.
\<close>

definition RotaryEmbedding_forward :: "real list \<Rightarrow> real list list list list \<Rightarrow> real list list list list" where
  "RotaryEmbedding_forward inv_freq x =
     map (map (\<lambda>xm.
       (let seq_len = length xm;
            t = map real [0..<seq_len];
            freqs = map (\<lambda>ti. map (\<lambda>f. ti * f) inv_freq) t;
            emb = map (\<lambda>r. r @ r) freqs;
            cos_emb = map (map cos) emb;
            sin_emb = map (map sin) emb;
            x1 = map evens xm;
            x2 = map odds xm;
            x_rot = map2 stack_flatten (map (map uminus) x2) x1
        in xm * cos_emb + x_rot * sin_emb))) x"

section \<open>Retention: decay weights and weighted scores\<close>

text \<open>
  Lines 62-65 of \<^verbatim>\<open>Retention.forward\<close>: the tensor \<^verbatim>\<open>t_w\<close> of axes (heads, T, T) from the
  parameter \<^verbatim>\<open>gamma_param\<close> (one entry per head) and the sequence length \<open>T\<close>.
\<close>

definition Retention_t_w :: "real list \<Rightarrow> nat \<Rightarrow> real list list list" where
  "Retention_t_w gamma_param T =
     (let gamma = map sigmoid gamma_param;
          idx = map int [0..<T];
          diff = map (\<lambda>i. map (\<lambda>j. max (i - j) 0) idx) idx
      in map (\<lambda>g. map (map (\<lambda>d. exp (- g * real_of_int d))) diff) gamma)"

text \<open>
  Line 67: \<^verbatim>\<open>scores = matmul(Q, K.transpose(-1, -2)) / scale\<close>, on tensors of axes
  (batch, heads, T, head_dim): entry \<open>(i, j)\<close> is the dot product of row \<open>i\<close> of \<open>Q\<close> and
  row \<open>j\<close> of \<open>K\<close>, divided by the scale.
\<close>

definition Retention_scores ::
  "real list list list list \<Rightarrow> real list list list list \<Rightarrow> real \<Rightarrow> real list list list list" where
  "Retention_scores Q K scale =
     map2 (map2 (\<lambda>q k. map (\<lambda>qi. map (\<lambda>kj. sum_list (qi * kj) / scale) k) q)) Q K"

text \<open>Line 68: \<^verbatim>\<open>scores * t_w.unsqueeze(0)\<close>; the new leading axis is broadcast over the batch.\<close>

definition Retention_weighted_scores ::
  "real list list list list \<Rightarrow> real list list list \<Rightarrow> real list list list list" where
  "Retention_weighted_scores scores t_w = map (\<lambda>s. s * t_w) scores"

section \<open>The selective state-space mixer on values\<close>

text \<open>
  A tensor of three axes (batch, time, channels) is a list of lists of lists. A tensor
  with an axis of length 0 has no entries, and the nested lists then do not record the
  lengths of the axes below it; \<open>shape3\<close> reads them as 0.
\<close>

definition shape3 :: "'a list list list \<Rightarrow> nat \<times> nat \<times> nat" where
  "shape3 x =
     (length x,
      (case x of [] \<Rightarrow> 0 | xb # _ \<Rightarrow> length xb),
      (case x of [] \<Rightarrow> 0 | xb # _ \<Rightarrow> (case xb of [] \<Rightarrow> 0 | v # _ \<Rightarrow> length v)))"

text \<open>
  \<^verbatim>\<open>nn.Linear\<close>: the weight has the axes (out_features, in_features); the layer acts on
  the last axis of its input.
\<close>

record Linear =
  weight :: "real list list"
  bias :: "real list"

definition Linear_forward :: "Linear \<Rightarrow> real list \<Rightarrow> real list" where
  "Linear_forward l v = map2 (\<lambda>w b. sum_list (w * v) + b) (weight l) (bias l)"

text \<open>
  \<^verbatim>\<open>nn.Conv1d\<close> with \<^verbatim>\<open>groups\<close> equal to the number of channels (a depthwise convolution):
  channel \<open>c\<close> has its own kernel \<open>conv_weight ! c\<close> (the weight tensor has the axes
  (channels, 1, kernel_size); the unit axis is dropped) and its own bias. The input is
  padded with \<open>padding\<close> zeros on both sides; output position \<open>t\<close> is the dot product of the
  kernel with the padded input from position \<open>t\<close> on, plus the bias.
\<close>

record Conv1d =
  conv_weight :: "real list list"
  conv_bias :: "real list"
  padding :: nat

definition conv1d_channel :: "real list \<Rightarrow> real \<Rightarrow> nat \<Rightarrow> real list \<Rightarrow> real list" where
  "conv1d_channel w b p xs =
     (let xp = replicate p 0 @ xs @ replicate p 0
      in map (\<lambda>t. sum_list (w * take (length w) (drop t xp)) + b) [0..<length xp + 1 - length w])"

definition Conv1d_forward :: "Conv1d \<Rightarrow> real list list \<Rightarrow> real list list" where
  "Conv1d_forward c x =
     map (\<lambda>(w, b, xs). conv1d_channel w b (padding c) xs) (zip (conv_weight c) (zip (conv_bias c) x))"

text \<open>
  The parameters and sizes of a \<^verbatim>\<open>MambaBlock\<close> (lines 114-135). \<^verbatim>\<open>A_log\<close> has the axes
  (1, d_state); the parameter \<^verbatim>\<open>D\<close> is the field \<open>skip_D\<close>.
\<close>

record MambaBlock =
  embed_dim :: nat
  d_state :: nat
  d_conv :: nat
  dt_rank :: nat
  in_proj :: Linear
  conv1d :: Conv1d
  x_proj :: Linear
  dt_proj :: Linear
  A_log :: "real list list"
  skip_D :: "real list"
  out_proj :: Linear

text \<open>\<^verbatim>\<open>v.chunk(2, dim=-1)\<close> on one row: two pieces, the first of half the length rounded up.\<close>

definition chunk2 :: "'a list \<Rightarrow> 'a list \<times> 'a list" where
  "chunk2 v = (let c = (length v + 1) div 2 in (take c v, drop c v))"

text \<open>Lines 139-140 of \<^verbatim>\<open>_forward_logic\<close>: the pair \<^verbatim>\<open>(x_in, res)\<close>.\<close>

definition mamba_x_in_res :: "MambaBlock \<Rightarrow> real list list list \<Rightarrow> real list list list \<times> real list list list" where
  "mamba_x_in_res m x =
     (let x_and_res = map (map (Linear_forward (in_proj m))) x
      in (map (map (\<lambda>v. fst (chunk2 v))) x_and_res, map (map (\<lambda>v. snd (chunk2 v))) x_and_res))"

text \<open>
  Line 141: \<^verbatim>\<open>self.conv1d(x_in.transpose(1, 2))[:, :, :T].transpose(1, 2)\<close>, where \<open>T\<close> is the
  time length of the block's input.
\<close>

definition mamba_conv :: "MambaBlock \<Rightarrow> nat \<Rightarrow> real list list list \<Rightarrow> real list list list" where
  "mamba_conv m T x_in =
     map (\<lambda>xb. transpose (map (take T) (Conv1d_forward (conv1d m) (transpose xb)))) x_in"

text \<open>
  Lines 143-147: \<^verbatim>\<open>x_ssm\<close> is split along its last axis into pieces of the sizes
  \<^verbatim>\<open>[dt_rank, d_state, d_state]\<close>, and \<^verbatim>\<open>delta\<close> goes through \<^verbatim>\<open>dt_proj\<close> and softplus.
\<close>

definition mamba_delta_B_C ::
  "MambaBlock \<Rightarrow> real list list list \<Rightarrow> real list list list \<times> real list list list \<times> real list list list" where
  "mamba_delta_B_C m x_conv =
     (let x_ssm = map (map (Linear_forward (x_proj m))) x_conv;
          delta = map (map (take (dt_rank m))) x_ssm;
          B_param = map (map (\<lambda>v. take (d_state m) (drop (dt_rank m) v))) x_ssm;
          C_param = map (map (\<lambda>v. take (d_state m) (drop (dt_rank m + d_state m) v))) x_ssm;
          delta = map (map (\<lambda>v. map softplus (Linear_forward (dt_proj m) v))) delta
      in (delta, B_param, C_param))"

text \<open>
  Lines 157-159 of \<^verbatim>\<open>selective_scan\<close>: the tensors \<^verbatim>\<open>deltaA\<close> and \<^verbatim>\<open>deltaB_u\<close> of axes
  (batch, time, channels, state). \<^verbatim>\<open>A\<close> has the axes (1, d_state), so its one row is
  broadcast over the channels.
\<close>

definition selective_scan_elems ::
  "MambaBlock \<Rightarrow> real list list list \<Rightarrow> real list list list \<Rightarrow> real list list list \<Rightarrow>
   real list list list list \<times> real list list list list" where
  "selective_scan_elems m u delta B =
     (let A = map (map (\<lambda>a. - exp a)) (A_log m);
          deltaA = map (map (map (\<lambda>d. map (\<lambda>a. exp (d * a)) (concat A)))) delta;
          deltaB_u =
            map (\<lambda>(delta_b, B_b, u_b).
              map (\<lambda>(delta_t, B_t, u_t).
                map (\<lambda>(d, ud). map (\<lambda>Bn. (d * Bn) * ud) B_t) (zip delta_t u_t))
              (zip delta_b (zip B_b u_b)))
            (zip delta (zip B u))
      in (deltaA, deltaB_u))"

text \<open>
  \<^verbatim>\<open>selective_scan\<close> (lines 153-174). \<^verbatim>\<open>permute(1, 0, 2, 3)\<close> exchanges the two leading
  axes, \<^verbatim>\<open>view(T_size, -1, N)\<close> merges the batch and channel axes, and
  \<^verbatim>\<open>view(T_size, B_size, D_size, N)\<close> separates them again.
\<close>

definition selective_scan ::
  "MambaBlock \<Rightarrow> real list list list \<Rightarrow> real list list list \<Rightarrow> real list list list \<Rightarrow>
   real list list list \<Rightarrow> real list list list option" where
  "selective_scan m u delta B C =
     (case shape3 u of (B_size, T_size, D_size) \<Rightarrow>
        (let (deltaA, deltaB_u) = selective_scan_elems m u delta B;
             deltaA = transpose deltaA;
             deltaB_u = transpose deltaB_u;
             flat_A = map concat deltaA;
             flat_B_u = map concat deltaB_u
         in do {
           (_, ys) \<leftarrow> associative_scan (flat_A, flat_B_u);
           let ys = map (\<lambda>row. map (\<lambda>b. take D_size (drop (b * D_size) row)) [0..<B_size]) ys;
           let ys = transpose ys;
           Some (map2 (map2 (\<lambda>ys_t C_t. map (\<lambda>ys_d. sum_list (ys_d * C_t)) ys_t)) ys C)
         }))"

text \<open>
  Lines 138-142: \<^verbatim>\<open>x_conv\<close>, the convolved first half of the input projection after SiLU.
\<close>

definition mamba_x_conv :: "MambaBlock \<Rightarrow> real list list list \<Rightarrow> real list list list" where
  "mamba_x_conv m x =
     (case shape3 x of (B, T, D) \<Rightarrow>
        (let (x_in, res) = mamba_x_in_res m x;
             x_conv = mamba_conv m T x_in
         in map (map (map silu)) x_conv))"

text \<open>
  Lines 143-149: the value \<^verbatim>\<open>y\<close> before the gate; \<^verbatim>\<open>x_conv * self.D\<close> multiplies every
  channel by its entry of \<^verbatim>\<open>D\<close>.
\<close>

definition mamba_pre_gate :: "MambaBlock \<Rightarrow> real list list list \<Rightarrow> real list list list option" where
  "mamba_pre_gate m x =
     (let x_conv = mamba_x_conv m x;
          (delta, B_param, C_param) = mamba_delta_B_C m x_conv
      in do {
        y \<leftarrow> selective_scan m x_conv delta B_param C_param;
        Some (y + map (map (\<lambda>v. v * skip_D m)) x_conv)
      })"

text \<open>
  \<^verbatim>\<open>_forward_logic\<close> (lines 137-151), and \<^verbatim>\<open>forward\<close> (lines 176-177): the checkpoint
  wrapper returns what the wrapped function returns.
\<close>

definition forward_logic :: "MambaBlock \<Rightarrow> real list list list \<Rightarrow> real list list list option" where
  "forward_logic m x =
     (let (x_in, res) = mamba_x_in_res m x
      in do {
        y \<leftarrow> mamba_pre_gate m x;
        let y = y * map (map (map silu)) res;
        Some (map (map (Linear_forward (out_proj m))) y)
      })"

definition MambaBlock_forward :: "MambaBlock \<Rightarrow> real list list list \<Rightarrow> real list list list option" where
  "MambaBlock_forward m x = forward_logic m x"


definition mamba_deltaB_u :: "MambaBlock \<Rightarrow> real list list list \<Rightarrow> real list list list list" where
  "mamba_deltaB_u m x =
     (let x_conv = mamba_x_conv m x;
          (delta, B_param, C_param) = mamba_delta_B_C m x_conv
      in snd (selective_scan_elems m x_conv delta B_param))"

text \<open>
  The reading of the specification for the driven term and for the value before the
  gate: both take \<^verbatim>\<open>x_in\<close>, the first half of the input projection, where the code above
  takes \<^verbatim>\<open>x_conv\<close>.
\<close>

definition spec_deltaB_u :: "MambaBlock \<Rightarrow> real list list list \<Rightarrow> real list list list list" where
  "spec_deltaB_u m x =
     (let (x_in, res) = mamba_x_in_res m x;
          x_conv = mamba_x_conv m x;
          (delta, B_param, C_param) = mamba_delta_B_C m x_conv
      in snd (selective_scan_elems m x_in delta B_param))"

definition spec_pre_gate :: "MambaBlock \<Rightarrow> real list list list \<Rightarrow> real list list list option" where
  "spec_pre_gate m x =
     (let (x_in, res) = mamba_x_in_res m x;
          x_conv = mamba_x_conv m x;
          (delta, B_param, C_param) = mamba_delta_B_C m x_conv
      in do {
        y \<leftarrow> selective_scan m x_in delta B_param C_param;
        Some (y + map (map (\<lambda>v. v * skip_D m)) x_in)
      })"

text \<open>
  The sizes of the attributes of \<^verbatim>\<open>conv1d\<close> as \<^verbatim>\<open>__init__\<close> creates them (lines 122-128),
  and a tensor of three axes with the given lengths.
\<close>

definition MambaBlock_conv_shapes :: "MambaBlock \<Rightarrow> bool" where
  "MambaBlock_conv_shapes m \<longleftrightarrow>
     0 < embed_dim m \<and> 0 < d_conv m \<and>
     length (conv_weight (conv1d m)) = embed_dim m \<and>
     length (conv_bias (conv1d m)) = embed_dim m \<and>
     (\<forall>w\<in>set (conv_weight (conv1d m)). length w = d_conv m) \<and>
     padding (conv1d m) = d_conv m - 1"

definition has_shape3 :: "'a list list list \<Rightarrow> nat \<Rightarrow> nat \<Rightarrow> nat \<Rightarrow> bool" where
  "has_shape3 x B T E \<longleftrightarrow>
     length x = B \<and> (\<forall>xb\<in>set x. length xb = T \<and> (\<forall>v\<in>set xb. length v = E))"

text \<open>
  A block with one channel and one state, \<^verbatim>\<open>MambaBlock(1, d_state=1)\<close>: \<^verbatim>\<open>A_log\<close> and \<^verbatim>\<open>D\<close>
  have their initial values, the convolution kernel is \<open>[1, 2, 3, 4]\<close>, and the
  projections are chosen so that \<^verbatim>\<open>B_param\<close> and \<^verbatim>\<open>C_param\<close> are 1 and \<^verbatim>\<open>delta\<close> is
  \<open>ln 2\<close>. The second block differs in its kernel, which is zero.
\<close>

definition example_block :: MambaBlock where
  "example_block =
     \<lparr>embed_dim = 1, d_state = 1, d_conv = 4, dt_rank = 1,
      in_proj = \<lparr>weight = [[1], [0]], bias = [0, 0]\<rparr>,
      conv1d = \<lparr>conv_weight = [[1, 2, 3, 4]], conv_bias = [0], padding = 3\<rparr>,
      x_proj = \<lparr>weight = [[0], [0], [0]], bias = [0, 1, 1]\<rparr>,
      dt_proj = \<lparr>weight = [[0]], bias = [0]\<rparr>,
      A_log = [[0]], skip_D = [1],
      out_proj = \<lparr>weight = [[1]], bias = [0]\<rparr>\<rparr>"

definition zero_kernel_block :: MambaBlock where
  "zero_kernel_block = example_block\<lparr>conv1d := \<lparr>conv_weight = [[0, 0, 0, 0]], conv_bias = [0], padding = 3\<rparr>\<rparr>"

section \<open>Shapes, and calls that raise\<close>

text \<open>
  The errors of \<^verbatim>\<open>dillnet.py\<close> come from the shape checks of torch and from Python's
  integer division. They do not depend on the entries of the tensors, so they are
  modelled on shapes: a shape is the list of the lengths of the axes. A call either does
  not return (\<open>None\<close>), raises, or returns a value.
\<close>

datatype error = ZeroDivisionError | ValueError | IndexError | RuntimeError

type_synonym 'a result = "(error + 'a) option"

abbreviation Returns :: "'a \<Rightarrow> 'a result" where
  "Returns x \<equiv> Some (Inr x)"

abbreviation Raises :: "error \<Rightarrow> 'a result" where
  "Raises e \<equiv> Some (Inl e)"

definition and_then :: "'a result \<Rightarrow> ('a \<Rightarrow> 'b result) \<Rightarrow> 'b result" where
  "and_then r f = (case r of None \<Rightarrow> None | Some (Inl e) \<Rightarrow> Some (Inl e) | Some (Inr x) \<Rightarrow> f x)"

type_synonym shape = "nat list"

definition numel :: "shape \<Rightarrow> nat" where
  "numel s = prod_list s"

text \<open>
  Broadcasting of two shapes: the axes are aligned at the end; two lengths are
  compatible when they are equal or one of them is 1.
\<close>

fun broadcast_rev :: "nat list \<Rightarrow> nat list \<Rightarrow> nat list option" where
  "broadcast_rev [] ys = Some ys"
| "broadcast_rev xs [] = Some xs"
| "broadcast_rev (x # xs) (y # ys) =
     (if x = y \<or> y = 1 then map_option (Cons x) (broadcast_rev xs ys)
      else if x = 1 then map_option (Cons y) (broadcast_rev xs ys)
      else None)"

definition broadcast :: "shape \<Rightarrow> shape \<Rightarrow> shape result" where
  "broadcast s1 s2 =
     (case broadcast_rev (rev s1) (rev s2) of
        None \<Rightarrow> Raises RuntimeError
      | Some r \<Rightarrow> Returns (rev r))"

text \<open>
  \<^verbatim>\<open>view\<close> and \<^verbatim>\<open>reshape\<close> to a target that may hold one \<open>-1\<close>, as torch infers it: the
  product of the given lengths must equal the number of elements, or divide it when an
  axis is to be inferred; an inferred axis beside a length 0 is ambiguous and raises.
  (The tensors viewed in \<^verbatim>\<open>dillnet.py\<close> are contiguous; strides are not modelled.)
\<close>

definition view :: "shape \<Rightarrow> int list \<Rightarrow> shape result" where
  "view s target =
     (let newsize = prod_list (map nat (filter (\<lambda>d. d \<noteq> - 1) target));
          infer = length (filter (\<lambda>d. d = - 1) target)
      in if list_ex (\<lambda>d. d < - 1) target \<or> infer > 1 then Raises RuntimeError
         else if infer = 0 then
           (if numel s = newsize then Returns (map nat target) else Raises RuntimeError)
         else if numel s = newsize \<or> (newsize > 0 \<and> numel s mod newsize = 0) then
           (if newsize = 0 then Raises RuntimeError
            else Returns (map (\<lambda>d. if d = - 1 then numel s div newsize else nat d) target))
         else Raises RuntimeError)"

text \<open>An axis index of a tensor of rank \<open>r\<close>; a negative index counts from the end.\<close>

definition axis :: "nat \<Rightarrow> int \<Rightarrow> nat option" where
  "axis r d =
     (if - int r \<le> d \<and> d < int r then Some (nat (if d < 0 then int r + d else d)) else None)"

definition transpose_axes :: "shape \<Rightarrow> int \<Rightarrow> int \<Rightarrow> shape result" where
  "transpose_axes s d0 d1 =
     (case axis (length s) d0 of
        None \<Rightarrow> Raises IndexError
      | Some i \<Rightarrow>
          (case axis (length s) d1 of
             None \<Rightarrow> Raises IndexError
           | Some j \<Rightarrow> Returns (s[i := s ! j, j := s ! i])))"

definition unsqueeze :: "shape \<Rightarrow> int \<Rightarrow> shape result" where
  "unsqueeze s d =
     (let r = int (length s)
      in if - r - 1 \<le> d \<and> d \<le> r then
           (let i = nat (if d < 0 then r + 1 + d else d) in Returns (take i s @ [1] @ drop i s))
         else Raises IndexError)"

definition permute :: "shape \<Rightarrow> nat list \<Rightarrow> shape result" where
  "permute s dims =
     (if sort dims = [0..<length s] then Returns (map (\<lambda>d. s ! d) dims) else Raises RuntimeError)"

text \<open>
  \<^verbatim>\<open>torch.matmul\<close>: a tensor of rank 1 gets a unit axis for the product, which is removed
  afterwards; the inner lengths must agree and the leading axes are broadcast.
\<close>

definition matmul :: "shape \<Rightarrow> shape \<Rightarrow> shape result" where
  "matmul s1 s2 =
     (if s1 = [] \<or> s2 = [] then Raises RuntimeError
      else
        (let a = (if length s1 = 1 then 1 # s1 else s1);
             b = (if length s2 = 1 then s2 @ [1] else s2)
         in if last a \<noteq> b ! (length b - 2) then Raises RuntimeError
            else and_then (broadcast (take (length a - 2) a) (take (length b - 2) b))
              (\<lambda>batch. Returns (batch
                 @ (if length s1 = 1 then [] else [a ! (length a - 2)])
                 @ (if length s2 = 1 then [] else [last b])))))"

text \<open>Reductions over the last axis: \<^verbatim>\<open>sum(-1)\<close> and \<^verbatim>\<open>mean(dim=-1, keepdim=True)\<close>.\<close>

definition sum_last :: "shape \<Rightarrow> shape result" where
  "sum_last s = Returns (butlast s)"

definition mean_last_keepdim :: "shape \<Rightarrow> shape result" where
  "mean_last_keepdim s = Returns (if s = [] then [] else butlast s @ [1])"

text \<open>
  \<^verbatim>\<open>torch.stack((a, b), dim=-1)\<close>, \<^verbatim>\<open>flatten(-2)\<close>, the strided slices \<^verbatim>\<open>x[..., start::2]\<close>
  and the slice \<^verbatim>\<open>x[:, :, :T]\<close>.
\<close>

definition stack2_last :: "shape \<Rightarrow> shape \<Rightarrow> shape result" where
  "stack2_last s1 s2 = (if s1 = s2 then Returns (s1 @ [2]) else Raises RuntimeError)"

definition flatten_last2 :: "shape \<Rightarrow> shape result" where
  "flatten_last2 s =
     (if length s < 2 then Raises IndexError
      else Returns (take (length s - 2) s @ [s ! (length s - 2) * last s]))"

definition slice_last_step2 :: "shape \<Rightarrow> nat \<Rightarrow> shape result" where
  "slice_last_step2 s start =
     (if s = [] then Raises IndexError
      else Returns (butlast s @ [(last s - min start (last s) + 1) div 2]))"

definition slice_axis2_upto :: "shape \<Rightarrow> nat \<Rightarrow> shape result" where
  "slice_axis2_upto s T =
     (if length s < 3 then Raises IndexError else Returns (s[2 := min T (s ! 2)]))"

text \<open>
  \<^verbatim>\<open>torch.cat\<close> of two tensors along an axis: the other axes must agree. (torch also
  accepts a tensor of shape \<open>[0]\<close> beside any other.)
\<close>

definition cat2 :: "shape \<Rightarrow> shape \<Rightarrow> int \<Rightarrow> shape result" where
  "cat2 s1 s2 d =
     (if s1 = [0] \<and> length s2 \<noteq> 1 then Returns s2
      else if s2 = [0] \<and> length s1 \<noteq> 1 then Returns s1
      else
        (case axis (length s1) d of
           None \<Rightarrow> Raises IndexError
         | Some i \<Rightarrow>
             (if length s1 = length s2 \<and> s1[i := 0] = s2[i := 0]
              then Returns (s1[i := s1 ! i + s2 ! i])
              else Raises RuntimeError)))"

text \<open>
  A slice \<^verbatim>\<open>x[start:stop]\<close> along the leading axis, on shapes; it needs an axis to slice.
\<close>

definition slice0 :: "shape \<Rightarrow> int option \<Rightarrow> int option \<Rightarrow> shape result" where
  "slice0 s start stop =
     (case s of
        [] \<Rightarrow> Raises IndexError
      | n # rest \<Rightarrow>
          (let lo = (case start of None \<Rightarrow> 0 | Some i \<Rightarrow> norm_index n i);
               hi = (case stop of None \<Rightarrow> n | Some j \<Rightarrow> norm_index n j)
           in Returns ((hi - lo) # rest)))"

section \<open>Modules and their constructors\<close>

text \<open>
  What the constructors fix: the sizes of the layers and of the parameters. The values
  of the parameters are drawn at random by torch and are inputs of the value semantics
  above.
\<close>

record RMSNorm_sizes =
  weight_shape :: shape

definition RMSNorm_init :: "nat \<Rightarrow> RMSNorm_sizes result" where
  "RMSNorm_init dim' = Returns \<lparr>weight_shape = [dim']\<rparr>"

record Linear_sizes =
  in_features :: nat
  out_features :: nat

definition Linear_init :: "nat \<Rightarrow> nat \<Rightarrow> Linear_sizes result" where
  "Linear_init n_in n_out = Returns \<lparr>in_features = n_in, out_features = n_out\<rparr>"

text \<open>
  \<^verbatim>\<open>nn.Conv1d\<close> checks its groups: they must be positive and divide both channel counts.
\<close>

record Conv1d_sizes =
  in_channels :: nat
  out_channels :: nat
  kernel_size :: nat
  pad :: int
  groups :: nat

definition Conv1d_init :: "nat \<Rightarrow> nat \<Rightarrow> nat \<Rightarrow> int \<Rightarrow> nat \<Rightarrow> Conv1d_sizes result" where
  "Conv1d_init c_in c_out k p g =
     (if g = 0 then Raises ValueError
      else if c_in mod g \<noteq> 0 then Raises ValueError
      else if c_out mod g \<noteq> 0 then Raises ValueError
      else Returns \<lparr>in_channels = c_in, out_channels = c_out, kernel_size = k, pad = p, groups = g\<rparr>)"

text \<open>
  \<^verbatim>\<open>RotaryEmbedding.__init__\<close>: \<^verbatim>\<open>inv_freq\<close> has one entry per element of
  \<^verbatim>\<open>arange(0, dim, 2)\<close>. The division by \<^verbatim>\<open>dim\<close> is a division of tensors and does not raise.
\<close>

record RotaryEmbedding_sizes =
  inv_freq_shape :: shape

definition RotaryEmbedding_sizes_init :: "nat \<Rightarrow> RotaryEmbedding_sizes result" where
  "RotaryEmbedding_sizes_init dim' = Returns \<lparr>inv_freq_shape = [length (arange2 dim')]\<rparr>"

text \<open>
  \<^verbatim>\<open>Retention.__init__\<close> (lines 40-51). \<^verbatim>\<open>embed_dim // heads\<close> is Python's integer division,
  which raises on a zero divisor.
\<close>

record Retention_sizes =
  heads :: nat
  head_dim :: nat
  w_q :: Linear_sizes
  w_k :: Linear_sizes
  w_v :: Linear_sizes
  gate :: Linear_sizes
  gamma_param_shape :: shape
  rotary :: RotaryEmbedding_sizes

definition Retention_init :: "nat \<Rightarrow> nat \<Rightarrow> Retention_sizes result" where
  "Retention_init e h =
     (if h = 0 then Raises ZeroDivisionError
      else
        and_then (Linear_init e e) (\<lambda>q.
        and_then (Linear_init e e) (\<lambda>k.
        and_then (Linear_init e e) (\<lambda>v.
        and_then (Linear_init e e) (\<lambda>g.
        and_then (RotaryEmbedding_sizes_init (e div h)) (\<lambda>r.
          Returns \<lparr>heads = h, head_dim = e div h, w_q = q, w_k = k, w_v = v, gate = g,
                   gamma_param_shape = [h], rotary = r\<rparr>))))))"

text \<open>
  \<^verbatim>\<open>MambaBlock.__init__\<close> (lines 114-135); \<open>None\<close> for \<^verbatim>\<open>dt_rank\<close> is the default \<^verbatim>\<open>'auto'\<close>.
\<close>

record MambaBlock_sizes =
  m_embed_dim :: nat
  m_d_state :: nat
  m_d_conv :: nat
  m_dt_rank :: nat
  m_in_proj :: Linear_sizes
  m_conv1d :: Conv1d_sizes
  m_x_proj :: Linear_sizes
  m_dt_proj :: Linear_sizes
  m_A_log_shape :: shape
  m_D_shape :: shape
  m_out_proj :: Linear_sizes

definition MambaBlock_init :: "nat \<Rightarrow> nat \<Rightarrow> nat \<Rightarrow> nat option \<Rightarrow> MambaBlock_sizes result" where
  "MambaBlock_init e n k r =
     (let rank = (case r of None \<Rightarrow> (e + 15) div 16 | Some r' \<Rightarrow> r')
      in
        and_then (Linear_init e (e * 2)) (\<lambda>ip.
        and_then (Conv1d_init e e k (int k - 1) e) (\<lambda>cv.
        and_then (Linear_init e (rank + n * 2)) (\<lambda>xp.
        and_then (Linear_init rank e) (\<lambda>dp.
        and_then (Linear_init e e) (\<lambda>op.
          Returns \<lparr>m_embed_dim = e, m_d_state = n, m_d_conv = k, m_dt_rank = rank,
                   m_in_proj = ip, m_conv1d = cv, m_x_proj = xp, m_dt_proj = dp,
                   m_A_log_shape = [1, n], m_D_shape = [e], m_out_proj = op\<rparr>))))))"

text \<open>
  \<^verbatim>\<open>DillNetBlock.__init__\<close> (lines 180-198); \<open>None\<close> for \<^verbatim>\<open>ffn_dim\<close> is the default.
\<close>

datatype mixer = is_Retention: Retention_layer Retention_sizes | is_Mamba: Mamba_layer MambaBlock_sizes

record DillNetBlock =
  use_mamba :: bool
  norm1 :: RMSNorm_sizes
  attention_layer :: mixer
  norm2 :: RMSNorm_sizes
  w1 :: Linear_sizes
  w2 :: Linear_sizes
  w3 :: Linear_sizes

definition DillNetBlock_init :: "nat \<Rightarrow> nat \<Rightarrow> bool \<Rightarrow> nat option \<Rightarrow> DillNetBlock result" where
  "DillNetBlock_init e h mamba ffn =
     (let ffn_dim = (case ffn of None \<Rightarrow> e * 4 | Some f \<Rightarrow> f)
      in
        and_then (RMSNorm_init e) (\<lambda>n1.
        and_then (if mamba then and_then (MambaBlock_init e 16 4 None) (\<lambda>m. Returns (Mamba_layer m))
                  else and_then (Retention_init e h) (\<lambda>r. Returns (Retention_layer r))) (\<lambda>layer.
        and_then (RMSNorm_init e) (\<lambda>n2.
        and_then (Linear_init e ffn_dim) (\<lambda>l1.
        and_then (Linear_init e ffn_dim) (\<lambda>l2.
        and_then (Linear_init ffn_dim e) (\<lambda>l3.
          Returns \<lparr>use_mamba = mamba, norm1 = n1, attention_layer = layer, norm2 = n2,
                   w1 = l1, w2 = l2, w3 = l3\<rparr>)))))))"

text \<open>
  \<^verbatim>\<open>DillNet.__init__\<close> (lines 208-214). The list comprehension builds the blocks in the
  order of \<^verbatim>\<open>range(depth)\<close> and stops at the first constructor that raises.
\<close>

fun build_blocks :: "(nat \<Rightarrow> 'a result) \<Rightarrow> nat list \<Rightarrow> 'a list result" where
  "build_blocks f [] = Returns []"
| "build_blocks f (i # is) =
     and_then (f i) (\<lambda>b. and_then (build_blocks f is) (\<lambda>bs. Returns (b # bs)))"

record DillNet =
  blocks :: "DillNetBlock list"
  final_norm :: RMSNorm_sizes

definition DillNet_init :: "nat \<Rightarrow> nat \<Rightarrow> nat \<Rightarrow> nat option \<Rightarrow> DillNet result" where
  "DillNet_init e depth h ffn =
     and_then (build_blocks (\<lambda>i. DillNetBlock_init e h (i mod 2 \<noteq> 0) ffn) [0..<depth]) (\<lambda>bs.
     and_then (RMSNorm_init e) (\<lambda>n.
       Returns \<lparr>blocks = bs, final_norm = n\<rparr>))"

section \<open>Shapes through the forward calls\<close>

text \<open>
  Every function below follows the \<^verbatim>\<open>forward\<close> of its module operation by operation and
  computes the shape of each intermediate tensor. Operations that keep the shape and
  cannot raise (\<^verbatim>\<open>float\<close>, \<^verbatim>\<open>pow\<close>, \<^verbatim>\<open>rsqrt\<close>, \<^verbatim>\<open>cos\<close>, \<^verbatim>\<open>exp\<close>, \<^verbatim>\<open>clamp\<close>, SiLU, softplus,
  dropout, \<^verbatim>\<open>contiguous\<close>, a product or quotient with a number) are left out.
\<close>

definition RMSNorm_forward :: "RMSNorm_sizes \<Rightarrow> shape \<Rightarrow> shape result" where
  "RMSNorm_forward n x =
     and_then (mean_last_keepdim x) (\<lambda>ms.
     and_then (broadcast x ms) (\<lambda>output.
       broadcast output (weight_shape n)))"

definition Linear_forward_shape :: "Linear_sizes \<Rightarrow> shape \<Rightarrow> shape result" where
  "Linear_forward_shape l x =
     (if x \<noteq> [] \<and> last x = in_features l then Returns (butlast x @ [out_features l])
      else Raises RuntimeError)"

text \<open>\<^verbatim>\<open>RotaryEmbedding.forward\<close> (lines 27-37).\<close>

definition RotaryEmbedding_forward_shape :: "RotaryEmbedding_sizes \<Rightarrow> shape \<Rightarrow> shape result" where
  "RotaryEmbedding_forward_shape r x =
     (if length x < 2 then Raises IndexError
      else
        (let seq_len = x ! (length x - 2);
             t = [seq_len]
         in
           and_then (if length (inv_freq_shape r) = 1 then Returns (t @ inv_freq_shape r)
                     else Raises RuntimeError) (\<lambda>freqs.
           and_then (cat2 freqs freqs (- 1)) (\<lambda>emb.
           and_then (Returns ([1, 1] @ emb)) (\<lambda>cos_emb.
           and_then (Returns ([1, 1] @ emb)) (\<lambda>sin_emb.
           and_then (slice_last_step2 x 0) (\<lambda>x1.
           and_then (slice_last_step2 x 1) (\<lambda>x2.
           and_then (stack2_last x2 x1) (\<lambda>stacked.
           and_then (flatten_last2 stacked) (\<lambda>x_rot.
           and_then (broadcast x cos_emb) (\<lambda>a.
           and_then (broadcast x_rot sin_emb) (\<lambda>b.
             broadcast a b))))))))))))"

text \<open>\<^verbatim>\<open>Retention.forward\<close> (lines 53-73).\<close>

definition Retention_forward_shape :: "Retention_sizes \<Rightarrow> shape \<Rightarrow> shape result" where
  "Retention_forward_shape r x =
     (case x of
        [B, T, E] \<Rightarrow>
          and_then (Linear_forward_shape (w_q r) x) (\<lambda>q.
          and_then (view q [int B, int T, int (heads r), int (head_dim r)]) (\<lambda>q.
          and_then (transpose_axes q 1 2) (\<lambda>Q.
          and_then (Linear_forward_shape (w_k r) x) (\<lambda>k.
          and_then (view k [int B, int T, int (heads r), int (head_dim r)]) (\<lambda>k.
          and_then (transpose_axes k 1 2) (\<lambda>K.
          and_then (Linear_forward_shape (w_v r) x) (\<lambda>v.
          and_then (view v [int B, int T, int (heads r), int (head_dim r)]) (\<lambda>v.
          and_then (transpose_axes v 1 2) (\<lambda>V.
          and_then (RotaryEmbedding_forward_shape (rotary r) Q) (\<lambda>Q.
          and_then (RotaryEmbedding_forward_shape (rotary r) K) (\<lambda>K.
          and_then (unsqueeze [T] 1) (\<lambda>idx1.
          and_then (unsqueeze [T] 0) (\<lambda>idx0.
          and_then (broadcast idx1 idx0) (\<lambda>diff.
          and_then (view (gamma_param_shape r) [int (heads r), 1, 1]) (\<lambda>gamma.
          and_then (broadcast gamma diff) (\<lambda>t_w.
          and_then (transpose_axes K (- 1) (- 2)) (\<lambda>Kt.
          and_then (matmul Q Kt) (\<lambda>scores.
          and_then (unsqueeze t_w 0) (\<lambda>t_w0.
          and_then (broadcast scores t_w0) (\<lambda>weighted_scores.
          and_then (matmul weighted_scores V) (\<lambda>out.
          and_then (transpose_axes out 1 2) (\<lambda>out.
          and_then (view out [int B, int T, - 1]) (\<lambda>out.
          and_then (Linear_forward_shape (gate r) x) (\<lambda>g.
            broadcast g out))))))))))))))))))))))))
      | _ \<Rightarrow> Raises ValueError)"

text \<open>
  \<^verbatim>\<open>binary_operator\<close> and \<^verbatim>\<open>associative_scan\<close> (lines 76-111) on shapes, with the same two
  loops and loop bodies as above.
\<close>

definition binary_operator_shape :: "shape \<times> shape \<Rightarrow> shape \<times> shape \<Rightarrow> (shape \<times> shape) result" where
  "binary_operator_shape q_i q_j =
     (case q_i of (A_i, Bu_i) \<Rightarrow> case q_j of (A_j, Bu_j) \<Rightarrow>
        and_then (broadcast A_j A_i) (\<lambda>A_res.
        and_then (broadcast A_j Bu_i) (\<lambda>prod.
        and_then (broadcast Bu_j prod) (\<lambda>Bu_res.
          Returns (A_res, Bu_res)))))"

definition up_step_shape :: "int \<Rightarrow> shape \<times> shape \<Rightarrow> (shape \<times> shape) result" where
  "up_step_shape stride scanned_elems =
     and_then (slice0 (fst scanned_elems) None (Some (- stride))) (\<lambda>A_a.
     and_then (slice0 (snd scanned_elems) None (Some (- stride))) (\<lambda>Bu_a.
     and_then (slice0 (fst scanned_elems) (Some stride) None) (\<lambda>A_b.
     and_then (slice0 (snd scanned_elems) (Some stride) None) (\<lambda>Bu_b.
     and_then (binary_operator_shape (A_a, Bu_a) (A_b, Bu_b)) (\<lambda>res.
     and_then (slice0 (fst scanned_elems) None (Some stride)) (\<lambda>A_head.
     and_then (cat2 A_head (fst res) 0) (\<lambda>new_A.
     and_then (slice0 (snd scanned_elems) None (Some stride)) (\<lambda>Bu_head.
     and_then (cat2 Bu_head (snd res) 0) (\<lambda>new_Bu.
       Returns (new_A, new_Bu))))))))))"

partial_function (option) up_sweep_shape ::
  "int \<Rightarrow> int \<Rightarrow> shape \<times> shape \<Rightarrow> (error + int \<times> shape \<times> shape) option" where
  "up_sweep_shape num_elems stride scanned_elems =
     (if stride < num_elems then
        (case up_step_shape stride scanned_elems of
           None \<Rightarrow> None
         | Some (Inl e) \<Rightarrow> Raises e
         | Some (Inr new_elems) \<Rightarrow> up_sweep_shape num_elems (stride * 2) new_elems)
      else Returns (stride, scanned_elems))"

definition down_step_shape :: "int \<Rightarrow> shape \<times> shape \<Rightarrow> (shape \<times> shape) result" where
  "down_step_shape stride scanned_elems =
     and_then (slice0 (fst scanned_elems) (Some (stride - 1)) (Some (- stride))) (\<lambda>A_prev.
     and_then (slice0 (snd scanned_elems) (Some (stride - 1)) (Some (- stride))) (\<lambda>Bu_prev.
     and_then (slice0 (fst scanned_elems) (Some (2 * stride - 1)) None) (\<lambda>A_curr.
     and_then (slice0 (snd scanned_elems) (Some (2 * stride - 1)) None) (\<lambda>Bu_curr.
     and_then (binary_operator_shape (A_prev, Bu_prev) (A_curr, Bu_curr)) (\<lambda>res.
     and_then (slice0 (fst scanned_elems) None (Some (2 * stride - 1))) (\<lambda>A_head.
     and_then (cat2 A_head (fst res) 0) (\<lambda>new_A.
     and_then (slice0 (snd scanned_elems) None (Some (2 * stride - 1))) (\<lambda>Bu_head.
     and_then (cat2 Bu_head (snd res) 0) (\<lambda>new_Bu.
       Returns (new_A, new_Bu))))))))))"

function down_sweep_shape :: "int \<Rightarrow> shape \<times> shape \<Rightarrow> (shape \<times> shape) result" where
  "down_sweep_shape stride scanned_elems =
     (if stride > 0 then
        (case down_step_shape stride scanned_elems of
           None \<Rightarrow> None
         | Some (Inl e) \<Rightarrow> Raises e
         | Some (Inr new_elems) \<Rightarrow> down_sweep_shape (stride div 2) new_elems)
      else Returns scanned_elems)"
  by pat_completeness auto
termination
  by (relation "measure (\<lambda>(stride, scanned_elems). nat stride)") auto

definition associative_scan_shape :: "shape \<times> shape \<Rightarrow> (shape \<times> shape) result" where
  "associative_scan_shape elems =
     (let scanned_elems = (fst elems, snd elems)
      in case fst scanned_elems of
           [] \<Rightarrow> Raises IndexError
         | num_elems # _ \<Rightarrow>
             (if num_elems \<le> 1 then Returns scanned_elems
              else and_then (up_sweep_shape (int num_elems) 1 scanned_elems)
                     (\<lambda>(stride, scanned_elems). down_sweep_shape (stride div 2) scanned_elems)))"

text \<open>
  The pieces of \<^verbatim>\<open>MambaBlock._forward_logic\<close>: \<^verbatim>\<open>chunk(2, dim=-1)\<close> unpacked into two names
  (a last axis of length 1 gives one chunk only, and the unpacking raises),
  \<^verbatim>\<open>torch.split\<close> into three given sizes, and the convolution.
\<close>

definition chunk2_last :: "shape \<Rightarrow> (shape \<times> shape) result" where
  "chunk2_last s =
     (if s = [] then Raises IndexError
      else if last s = 1 then Raises ValueError
      else Returns (butlast s @ [(last s + 1) div 2], butlast s @ [last s - (last s + 1) div 2]))"

definition split3_last :: "shape \<Rightarrow> nat \<Rightarrow> nat \<Rightarrow> nat \<Rightarrow> (shape \<times> shape \<times> shape) result" where
  "split3_last s a b c =
     (if s = [] then Raises IndexError
      else if a + b + c \<noteq> last s then Raises RuntimeError
      else Returns (butlast s @ [a], butlast s @ [b], butlast s @ [c]))"

definition Conv1d_forward_shape :: "Conv1d_sizes \<Rightarrow> shape \<Rightarrow> shape result" where
  "Conv1d_forward_shape c x =
     (if length x \<noteq> 2 \<and> length x \<noteq> 3 then Raises RuntimeError
      else if pad c < 0 then Raises RuntimeError
      else if x ! (length x - 2) \<noteq> in_channels c then Raises RuntimeError
      else if int (last x) + 2 * pad c < int (kernel_size c) then Raises RuntimeError
      else Returns (take (length x - 2) x
             @ [out_channels c, nat (int (last x) + 2 * pad c - int (kernel_size c) + 1)]))"

text \<open>\<^verbatim>\<open>MambaBlock.selective_scan\<close> (lines 153-174).\<close>

definition selective_scan_shape ::
  "MambaBlock_sizes \<Rightarrow> shape \<Rightarrow> shape \<Rightarrow> shape \<Rightarrow> shape \<Rightarrow> shape result" where
  "selective_scan_shape m u delta B C =
     (case u of
        [B_size, T_size, D_size] \<Rightarrow>
          (let N = m_d_state m; A = m_A_log_shape m
           in
             and_then (unsqueeze delta (- 1)) (\<lambda>delta1.
             and_then (broadcast delta1 A) (\<lambda>deltaA.
             and_then (unsqueeze B 2) (\<lambda>B2.
             and_then (broadcast delta1 B2) (\<lambda>deltaB.
             and_then (unsqueeze u (- 1)) (\<lambda>u1.
             and_then (broadcast deltaB u1) (\<lambda>deltaB_u.
             and_then (permute deltaA [1, 0, 2, 3]) (\<lambda>deltaA.
             and_then (permute deltaB_u [1, 0, 2, 3]) (\<lambda>deltaB_u.
             and_then (view deltaA [int T_size, - 1, int N]) (\<lambda>flat_A.
             and_then (view deltaB_u [int T_size, - 1, int N]) (\<lambda>flat_B_u.
             and_then (associative_scan_shape (flat_A, flat_B_u)) (\<lambda>scanned.
             and_then (view (snd scanned) [int T_size, int B_size, int D_size, int N]) (\<lambda>ys.
             and_then (permute ys [1, 0, 2, 3]) (\<lambda>ys.
             and_then (unsqueeze C 2) (\<lambda>C2.
             and_then (broadcast ys C2) (\<lambda>yc.
               sum_last yc))))))))))))))))
      | _ \<Rightarrow> Raises ValueError)"

text \<open>
  \<^verbatim>\<open>MambaBlock._forward_logic\<close> (lines 137-151) and \<^verbatim>\<open>MambaBlock.forward\<close> (lines 176-177).
\<close>

definition forward_logic_shape :: "MambaBlock_sizes \<Rightarrow> shape \<Rightarrow> shape result" where
  "forward_logic_shape m x =
     (case x of
        [B, T, D] \<Rightarrow>
          and_then (Linear_forward_shape (m_in_proj m) x) (\<lambda>x_and_res.
          and_then (chunk2_last x_and_res) (\<lambda>(x_in, res).
          and_then (transpose_axes x_in 1 2) (\<lambda>xt.
          and_then (Conv1d_forward_shape (m_conv1d m) xt) (\<lambda>conv.
          and_then (slice_axis2_upto conv T) (\<lambda>conv.
          and_then (transpose_axes conv 1 2) (\<lambda>x_conv.
          and_then (Linear_forward_shape (m_x_proj m) x_conv) (\<lambda>x_ssm.
          and_then (split3_last x_ssm (m_dt_rank m) (m_d_state m) (m_d_state m)) (\<lambda>(delta, B_param, C_param).
          and_then (Linear_forward_shape (m_dt_proj m) delta) (\<lambda>delta.
          and_then (selective_scan_shape m x_conv delta B_param C_param) (\<lambda>y.
          and_then (broadcast x_conv (m_D_shape m)) (\<lambda>skip.
          and_then (broadcast y skip) (\<lambda>y.
          and_then (broadcast y res) (\<lambda>y.
            Linear_forward_shape (m_out_proj m) y)))))))))))))
      | _ \<Rightarrow> Raises ValueError)"

definition MambaBlock_forward_shape :: "MambaBlock_sizes \<Rightarrow> shape \<Rightarrow> shape result" where
  "MambaBlock_forward_shape m x = forward_logic_shape m x"

text \<open>\<^verbatim>\<open>DillNetBlock.forward\<close> (lines 200-205) and \<^verbatim>\<open>DillNet.forward\<close> (lines 216-219).\<close>

definition DillNetBlock_forward :: "DillNetBlock \<Rightarrow> shape \<Rightarrow> shape result" where
  "DillNetBlock_forward b x =
     and_then (RMSNorm_forward (norm1 b) x) (\<lambda>normed.
     and_then (case attention_layer b of
                 Retention_layer r \<Rightarrow> Retention_forward_shape r normed
               | Mamba_layer m \<Rightarrow> MambaBlock_forward_shape m normed) (\<lambda>mixed.
     and_then (broadcast x mixed) (\<lambda>x.
     and_then (RMSNorm_forward (norm2 b) x) (\<lambda>normed_x.
     and_then (Linear_forward_shape (w1 b) normed_x) (\<lambda>h1.
     and_then (Linear_forward_shape (w2 b) normed_x) (\<lambda>h2.
     and_then (broadcast h1 h2) (\<lambda>h.
     and_then (Linear_forward_shape (w3 b) h) (\<lambda>ffn_out.
       broadcast x ffn_out))))))))"

fun forward_blocks :: "DillNetBlock list \<Rightarrow> shape \<Rightarrow> shape result" where
  "forward_blocks [] x = Returns x"
| "forward_blocks (block # rest) x = and_then (DillNetBlock_forward block x) (forward_blocks rest)"

definition DillNet_forward :: "DillNet \<Rightarrow> shape \<Rightarrow> shape result" where
  "DillNet_forward net x =
     and_then (forward_blocks (blocks net) x) (RMSNorm_forward (final_norm net))"

section \<open>What the constructors return, and how a call ends\<close>

text \<open>
  The modules that \<^verbatim>\<open>Retention.__init__\<close>, \<^verbatim>\<open>MambaBlock.__init__\<close> (with its defaults, as
  \<^verbatim>\<open>DillNetBlock\<close> calls it) and \<^verbatim>\<open>DillNetBlock.__init__\<close> return when they return.
\<close>

definition retention_sizes :: "nat \<Rightarrow> nat \<Rightarrow> Retention_sizes" where
  "retention_sizes e h =
     \<lparr>heads = h, head_dim = e div h,
      w_q = \<lparr>in_features = e, out_features = e\<rparr>,
      w_k = \<lparr>in_features = e, out_features = e\<rparr>,
      w_v = \<lparr>in_features = e, out_features = e\<rparr>,
      gate = \<lparr>in_features = e, out_features = e\<rparr>,
      gamma_param_shape = [h],
      rotary = \<lparr>inv_freq_shape = [length (arange2 (e div h))]\<rparr>\<rparr>"

definition mamba_sizes :: "nat \<Rightarrow> MambaBlock_sizes" where
  "mamba_sizes e =
     \<lparr>m_embed_dim = e, m_d_state = 16, m_d_conv = 4, m_dt_rank = (e + 15) div 16,
      m_in_proj = \<lparr>in_features = e, out_features = e * 2\<rparr>,
      m_conv1d = \<lparr>in_channels = e, out_channels = e, kernel_size = 4, pad = 3, groups = e\<rparr>,
      m_x_proj = \<lparr>in_features = e, out_features = (e + 15) div 16 + 16 * 2\<rparr>,
      m_dt_proj = \<lparr>in_features = (e + 15) div 16, out_features = e\<rparr>,
      m_A_log_shape = [1, 16], m_D_shape = [e],
      m_out_proj = \<lparr>in_features = e, out_features = e\<rparr>\<rparr>"

definition block_sizes :: "nat \<Rightarrow> nat \<Rightarrow> bool \<Rightarrow> nat option \<Rightarrow> DillNetBlock" where
  "block_sizes e h mamba ffn =
     (let ffn_dim = (case ffn of None \<Rightarrow> e * 4 | Some f \<Rightarrow> f)
      in \<lparr>use_mamba = mamba, norm1 = \<lparr>weight_shape = [e]\<rparr>,
          attention_layer = (if mamba then Mamba_layer (mamba_sizes e) else Retention_layer (retention_sizes e h)),
          norm2 = \<lparr>weight_shape = [e]\<rparr>,
          w1 = \<lparr>in_features = e, out_features = ffn_dim\<rparr>,
          w2 = \<lparr>in_features = e, out_features = ffn_dim\<rparr>,
          w3 = \<lparr>in_features = ffn_dim, out_features = e\<rparr>\<rparr>)"

text \<open>A call raises, or it halts (it raises or returns).\<close>

definition raises :: "'a result \<Rightarrow> bool" where
  "raises r = (case r of Some (Inl e) \<Rightarrow> True | _ \<Rightarrow> False)"

definition halts :: "'a result \<Rightarrow> bool" where
  "halts r = (case r of None \<Rightarrow> False | _ \<Rightarrow> True)"

section \<open>Properties of the scan\<close>

lemma up_sweep_returns:
  "0 < stride \<Longrightarrow> \<exists>r. up_sweep num_elems stride scanned_elems = Some r"
proof (induction "nat (num_elems - stride)" arbitrary: stride scanned_elems rule: less_induct)
  case less
  show ?case
  proof (cases "stride < num_elems")
    case True
    with less.prems have "nat (num_elems - stride * 2) < nat (num_elems - stride)" by simp
    moreover from less.prems have "0 < stride * 2" by simp
    ultimately show ?thesis
      using less.hyps True by (subst up_sweep.simps) (simp add: Let_def)
  next
    case False
    then show ?thesis by (subst up_sweep.simps) simp
  qed
qed

lemma associative_scan_returns: "\<exists>r. associative_scan elems = Some r"
proof -
  obtain r where "up_sweep (int (length (fst elems))) 1 (fst elems, snd elems) = Some r"
    using up_sweep_returns [of 1 "int (length (fst elems))" "(fst elems, snd elems)"] by auto
  then show ?thesis
    by (cases r) (simp add: associative_scan_def Let_def)
qed

text \<open>
  Claim C7: on a pair whose scan axis has length 0 or 1, \<^verbatim>\<open>associative_scan\<close> returns
  tensors with the values of its input.
\<close>

theorem associative_scan_degenerate:
  "length A \<le> 1 \<Longrightarrow> associative_scan (A, Bu) = Some (A, Bu)"
  by (simp add: associative_scan_def)

theorem associative_scan_degenerate_witness:
  "length [2::real] \<le> 1 \<and> associative_scan ([2::real], [3]) = Some ([2], [3])"
  using associative_scan_degenerate [of "[2::real]" "[3]"] by simp

text \<open>
  On a pair of length 2 the scan returns \<open>b\<^sub>1 + a\<^sub>1 * b\<^sub>0 + a\<^sub>1 * a\<^sub>0 * b\<^sub>0\<close> at position 1, where
  the recurrence has \<open>a\<^sub>1 * b\<^sub>0 + b\<^sub>1\<close>.
\<close>

lemma associative_scan_length_2:
  fixes a0 a1 b0 b1 :: "'a::comm_semiring_1"
  shows "associative_scan ([a0, a1], [b0, b1]) =
         Some ([a0, a1 * a0 * a0], [b0, b1 + a1 * b0 + a1 * a0 * b0])"
  by (simp add: associative_scan_def up_sweep.simps up_step_def down_step_def slice_def norm_index_def binary_operator_def
      addcmul_def times_list_def plus_list_def Let_def distrib_left ac_simps)

lemma sequential_recurrence_length_2:
  fixes a0 a1 b0 b1 :: "'a::comm_semiring_1"
  shows "sequential_recurrence 0 [a0, a1] [b0, b1] = [b0, a1 * b0 + b1]"
  by simp

text \<open>
  The first loop alone computes the left fold of \<^verbatim>\<open>binary_operator\<close>, whose second
  components are the states of the recurrence: after the round with stride \<open>s\<close> every
  position holds the fold of the \<open>2 * s\<close> pairs that end there.
\<close>

lemma binary_operator_assoc:
  fixes p q r :: "'a::semiring \<times> 'a"
  shows "binary_operator (binary_operator p q) r = binary_operator p (binary_operator q r)"
  by (cases p; cases q; cases r) (simp add: binary_operator_def addcmul_def distrib_left ac_simps mult.assoc)

lemma binary_operator_foldl:
  fixes p q :: "'a::semiring \<times> 'a"
  shows "binary_operator p (foldl binary_operator q rs) = foldl binary_operator (binary_operator p q) rs"
  by (induction rs arbitrary: q) (simp_all add: binary_operator_assoc [symmetric])

lemma window_fold_double:
  fixes qs :: "('a::semiring \<times> 'a) list"
  assumes "0 < s" "s \<le> k"
  shows "window_fold qs (2 * s) k = binary_operator (window_fold qs s (k - s)) (window_fold qs s k)"
proof -
  define lo2 where "lo2 = k + 1 - 2 * s"
  define lo1 where "lo1 = k + 1 - s"
  have lo: "lo2 < lo1" "lo1 \<le> k" "k - s + 1 - s = lo2" "k - s + 1 = lo1" "lo1 - s = lo2"
    using assms by (simp_all add: lo2_def lo1_def)
  have split: "[lo2 + 1..<k + 1] = [lo2 + 1..<lo1] @ lo1 # [lo1 + 1..<k + 1]"
  proof -
    have "[lo2 + 1..<k + 1] = [lo2 + 1..<lo1] @ [lo1..<k + 1]"
      using lo upt_add_eq_append [of "lo2 + 1" lo1 "k + 1 - lo1"] by simp
    moreover have "[lo1..<k + 1] = lo1 # [lo1 + 1..<k + 1]"
      using lo by (simp add: upt_conv_Cons)
    ultimately show ?thesis by simp
  qed
  have "binary_operator (window_fold qs s (k - s)) (window_fold qs s k) =
      binary_operator (foldl binary_operator (qs ! lo2) (map (\<lambda>i. qs ! i) [lo2 + 1..<lo1]))
        (foldl binary_operator (qs ! lo1) (map (\<lambda>i. qs ! i) [lo1 + 1..<k + 1]))"
    by (simp only: window_fold_def Let_def lo lo1_def [symmetric])
  also have "\<dots> = foldl binary_operator (qs ! lo2) (map (\<lambda>i. qs ! i) [lo2 + 1..<k + 1])"
    by (simp only: binary_operator_foldl split map_append list.map foldl_append foldl.simps)
  also have "\<dots> = window_fold qs (2 * s) k"
    by (simp only: window_fold_def Let_def lo2_def)
  finally show ?thesis by simp
qed

lemma window_fold_small: "k < s \<Longrightarrow> window_fold qs (2 * s) k = window_fold qs s k"
  by (simp add: window_fold_def Let_def)

lemma up_step_length:
  assumes "0 < s" "s < n" "length A' = n" "length Bu' = n"
  shows "length (fst (up_step (int s) (A', Bu'))) = n" "length (snd (up_step (int s) (A', Bu'))) = n"
proof -
  have ni: "norm_index n (- int s) = n - s" "norm_index n (int s) = s"
    using assms by (auto simp: norm_index_def)
  show "length (fst (up_step (int s) (A', Bu'))) = n" "length (snd (up_step (int s) (A', Bu'))) = n"
    using assms
    by (simp_all add: up_step_def slice_def ni binary_operator_def addcmul_def times_list_def
        plus_list_def Let_def)
qed

lemma up_step_nth:
  assumes "0 < s" "s < n" "length A' = n" "length Bu' = n" "k < n"
  shows "fst (up_step (int s) (A', Bu')) ! k = (if k < s then A' ! k else A' ! k * A' ! (k - s))"
    and "snd (up_step (int s) (A', Bu')) ! k =
           (if k < s then Bu' ! k else Bu' ! k + A' ! k * Bu' ! (k - s))"
proof -
  have ni: "norm_index n (- int s) = n - s" "norm_index n (int s) = s"
    using assms by (auto simp: norm_index_def)
  show "fst (up_step (int s) (A', Bu')) ! k = (if k < s then A' ! k else A' ! k * A' ! (k - s))"
    using assms
    by (simp add: up_step_def slice_def ni binary_operator_def addcmul_def times_list_def
        plus_list_def Let_def nth_append)
  show "snd (up_step (int s) (A', Bu')) ! k =
           (if k < s then Bu' ! k else Bu' ! k + A' ! k * Bu' ! (k - s))"
    using assms
    by (simp add: up_step_def slice_def ni binary_operator_def addcmul_def times_list_def
        plus_list_def Let_def nth_append)
qed

lemma up_step_windows:
  fixes qs :: "('a::semiring \<times> 'a) list"
  assumes "0 < s" "s < length qs" "scanned_windows qs s se"
  shows "scanned_windows qs (2 * s) (up_step (int s) se)"
proof -
  obtain A' Bu' where se: "se = (A', Bu')" by (cases se)
  let ?n = "length qs"
  have len: "length A' = ?n" "length Bu' = ?n"
    and w: "\<And>k. k < ?n \<Longrightarrow> (A' ! k, Bu' ! k) = window_fold qs s k"
    using assms(3) by (simp_all add: scanned_windows_def se)
  have "(fst (up_step (int s) (A', Bu')) ! k, snd (up_step (int s) (A', Bu')) ! k)
      = window_fold qs (2 * s) k" if k: "k < ?n" for k
  proof (cases "k < s")
    case True
    then show ?thesis
      using up_step_nth [OF assms(1) assms(2) len k] w [OF k] by (simp add: window_fold_small)
  next
    case False
    then have ks: "k - s < ?n" "s \<le> k" using k by simp_all
    have "window_fold qs (2 * s) k = binary_operator (A' ! (k - s), Bu' ! (k - s)) (A' ! k, Bu' ! k)"
      using window_fold_double [OF assms(1) ks(2), of qs] w [OF k] w [OF ks(1)] by simp
    then show ?thesis
      using False up_step_nth [OF assms(1) assms(2) len k]
      by (simp add: binary_operator_def addcmul_def)
  qed
  then show ?thesis
    using up_step_length [OF assms(1) assms(2) len]
    by (simp add: scanned_windows_def se)
qed

lemma up_sweep_windows:
  fixes qs :: "('a::semiring \<times> 'a) list"
  assumes "0 < s" "scanned_windows qs s se"
  shows "\<exists>s' se'. up_sweep (int (length qs)) (int s) se = Some (int s', se') \<and>
           length qs \<le> s' \<and> scanned_windows qs s' se'"
  using assms
proof (induction "length qs - s" arbitrary: s se rule: less_induct)
  case less
  show ?case
  proof (cases "s < length qs")
    case True
    have "length qs - 2 * s < length qs - s" using True less.prems(1) by simp
    moreover have "0 < 2 * s" using less.prems(1) by simp
    moreover have "scanned_windows qs (2 * s) (up_step (int s) se)"
      using less.prems True by (intro up_step_windows)
    ultimately obtain s' se' where
      "up_sweep (int (length qs)) (int (2 * s)) (up_step (int s) se) = Some (int s', se')"
      "length qs \<le> s'" "scanned_windows qs s' se'"
      using less.hyps by blast
    then show ?thesis
      using True by (subst up_sweep.simps) (auto simp: mult.commute)
  next
    case False
    then show ?thesis
      using less.prems by (subst up_sweep.simps) auto
  qed
qed

lemma map_nth_tail: "k \<le> length rest \<Longrightarrow> map (\<lambda>i. (q # rest) ! i) [1..<k + 1] = take k rest"
proof (rule nth_equalityI)
  show "k \<le> length rest \<Longrightarrow> length (map (\<lambda>i. (q # rest) ! i) [1..<k + 1]) = length (take k rest)"
    by (simp del: upt_Suc)
next
  fix i assume "k \<le> length rest" "i < length (map (\<lambda>i. (q # rest) ! i) [1..<k + 1])"
  then have "i < k" by (simp del: upt_Suc)
  then show "map (\<lambda>i. (q # rest) ! i) [1..<k + 1] ! i = take k rest ! i"
    by (simp add: nth_map_upt del: upt_Suc)
qed

lemma fold_prefixes_length: "length (fold_prefixes acc qs) = length qs"
  by (induction qs arbitrary: acc) simp_all

lemma fold_prefixes_nth:
  "k < length qs \<Longrightarrow> fold_prefixes acc qs ! k = foldl binary_operator acc (take (k + 1) qs)"
proof (induction qs arbitrary: acc k)
  case Nil
  then show ?case by simp
next
  case (Cons q qs)
  then show ?case by (cases k) simp_all
qed

lemma prefixes_nth:
  "k \<le> length rest \<Longrightarrow> (q # fold_prefixes q rest) ! k = foldl binary_operator q (take k rest)"
  by (cases k) (simp_all add: fold_prefixes_nth)

lemma window_fold_full:
  assumes "k < length qs" "length qs \<le> s"
  shows "window_fold qs s k = (hd qs # fold_prefixes (hd qs) (tl qs)) ! k"
proof -
  obtain q rest where qs: "qs = q # rest" using assms(1) by (cases qs) auto
  have "k + 1 - s = 0" using assms by simp
  then have "window_fold qs s k = foldl binary_operator q (map (\<lambda>i. (q # rest) ! i) [1..<k + 1])"
    by (simp add: window_fold_def Let_def qs del: upt_Suc)
  also have "\<dots> = foldl binary_operator q (take k rest)"
    using assms(1) map_nth_tail [of k rest q] by (simp add: qs del: upt_Suc)
  finally show ?thesis
    using assms(1) by (simp add: qs prefixes_nth)
qed

lemma scanned_windows_init:
  assumes "length A = length Bu"
  shows "scanned_windows (zip A Bu) 1 (A, Bu)"
  using assms by (simp add: scanned_windows_def window_fold_def)

lemma scanned_windows_final:
  assumes "length A = length Bu" "length A \<le> s" "scanned_windows (zip A Bu) s se"
  shows "se = sequential_fold (A, Bu)"
proof -
  let ?qs = "zip A Bu"
  let ?P = "hd ?qs # fold_prefixes (hd ?qs) (tl ?qs)"
  have n: "length ?qs = length A" using assms(1) by simp
  show ?thesis
  proof (cases "?qs")
    case Nil
    then have "A = []" "Bu = []" using assms(1) by (cases A; cases Bu; simp)+
    then show ?thesis
      using assms(3) by (cases se) (simp add: scanned_windows_def sequential_fold_def)
  next
    case (Cons q rest)
    have sf: "sequential_fold (A, Bu) = (map fst ?P, map snd ?P)"
      by (simp add: sequential_fold_def Cons)
    have lenP: "length ?P = length A"
      using n by (simp add: Cons fold_prefixes_length)
    have w: "(fst se ! k, snd se ! k) = ?P ! k" if "k < length A" for k
      using assms(2,3) that n window_fold_full [of k ?qs s]
      by (simp add: scanned_windows_def)
    have "fst se = map fst ?P"
    proof (rule nth_equalityI)
      show "length (fst se) = length (map fst ?P)"
        using assms(3) lenP n by (simp add: scanned_windows_def)
    next
      fix k assume "k < length (fst se)"
      then have k: "k < length A" using assms(3) n by (simp add: scanned_windows_def)
      then show "fst se ! k = map fst ?P ! k"
        using w [OF k] lenP by (metis nth_map fst_conv)
    qed
    moreover have "snd se = map snd ?P"
    proof (rule nth_equalityI)
      show "length (snd se) = length (map snd ?P)"
        using assms(3) lenP n by (simp add: scanned_windows_def)
    next
      fix k assume "k < length (snd se)"
      then have k: "k < length A" using assms(3) n by (simp add: scanned_windows_def)
      then show "snd se ! k = map snd ?P ! k"
        using w [OF k] lenP by (metis nth_map snd_conv)
    qed
    ultimately show ?thesis by (simp add: sf prod_eq_iff)
  qed
qed

lemma up_sweep_is_sequential_fold:
  fixes A Bu :: "'a::semiring list"
  assumes "length A = length Bu"
  shows "\<exists>s. up_sweep (int (length A)) 1 (A, Bu) = Some (int s, sequential_fold (A, Bu)) \<and>
             length A \<le> s"
proof -
  have n: "length (zip A Bu) = length A" using assms by simp
  obtain s' se' where "up_sweep (int (length (zip A Bu))) (int 1) (A, Bu) = Some (int s', se')"
    "length (zip A Bu) \<le> s'" "scanned_windows (zip A Bu) s' se'"
    using up_sweep_windows [OF _ scanned_windows_init [OF assms]] by auto
  then show ?thesis
    using scanned_windows_final [OF assms, of s' se'] n by auto
qed

lemma fold_prefixes_recurrence:
  fixes h :: "'a::semiring"
  shows "length as = length bs \<Longrightarrow>
    map snd (fold_prefixes (c, h) (zip as bs)) = sequential_recurrence h as bs"
proof (induction as arbitrary: bs c h)
  case Nil
  then show ?case by simp
next
  case (Cons a as)
  then obtain b bs' where bs: "bs = b # bs'" by (cases bs) auto
  with Cons show ?case
    by (simp add: binary_operator_def addcmul_def add.commute)
qed

lemma sequential_fold_recurrence:
  fixes A Bu :: "'a::semiring_0 list"
  assumes "length A = length Bu"
  shows "snd (sequential_fold (A, Bu)) = sequential_recurrence 0 A Bu"
proof (cases A)
  case Nil
  then show ?thesis using assms by (simp add: sequential_fold_def)
next
  case (Cons a as)
  then obtain b bs where bs: "Bu = b # bs" using assms by (cases Bu) auto
  then show ?thesis
    using assms Cons fold_prefixes_recurrence [of as bs a b]
    by (simp add: sequential_fold_def binary_operator_def addcmul_def)
qed

text \<open>
  The second loop then combines position 1 with position 0 once more, in its round with
  stride 1; the earlier rounds leave both positions as they are. So on every pair of
  tensors of length at least 2 the scan returns \<open>h\<^sub>1 + A\<^sub>1 * A\<^sub>0 * Bu\<^sub>0\<close> at position 1.
\<close>

lemma down_step_facts:
  assumes "0 < s" "length A' = n" "length Bu' = n"
  shows "length (fst (down_step (int s) (A', Bu'))) = n"
    and "length (snd (down_step (int s) (A', Bu'))) = n"
    and "k < 2 * s - 1 \<Longrightarrow> k < n \<Longrightarrow> fst (down_step (int s) (A', Bu')) ! k = A' ! k"
    and "k < 2 * s - 1 \<Longrightarrow> k < n \<Longrightarrow> snd (down_step (int s) (A', Bu')) ! k = Bu' ! k"
    and "2 * s - 1 \<le> k \<Longrightarrow> k < n \<Longrightarrow>
           fst (down_step (int s) (A', Bu')) ! k = A' ! k * A' ! (k - s)"
    and "2 * s - 1 \<le> k \<Longrightarrow> k < n \<Longrightarrow>
           snd (down_step (int s) (A', Bu')) ! k = Bu' ! k + A' ! k * Bu' ! (k - s)"
proof -
  have ni: "norm_index n (int s - 1) = min n (s - 1)" "norm_index n (- int s) = n - s"
    "norm_index n (2 * int s - 1) = min n (2 * s - 1)"
    using assms(1) by (auto simp: norm_index_def)
  note defs = down_step_def slice_def ni binary_operator_def addcmul_def times_list_def
    plus_list_def Let_def
  show "length (fst (down_step (int s) (A', Bu'))) = n"
    and "length (snd (down_step (int s) (A', Bu'))) = n"
    using assms by (auto simp: defs)
  show "k < 2 * s - 1 \<Longrightarrow> k < n \<Longrightarrow> fst (down_step (int s) (A', Bu')) ! k = A' ! k"
    and "k < 2 * s - 1 \<Longrightarrow> k < n \<Longrightarrow> snd (down_step (int s) (A', Bu')) ! k = Bu' ! k"
    using assms by (auto simp: defs nth_append)
  have combine: "fst (down_step (int s) (A', Bu')) ! k = A' ! k * A' ! (k - s) \<and>
      snd (down_step (int s) (A', Bu')) ! k = Bu' ! k + A' ! k * Bu' ! (k - s)"
    if k: "2 * s - 1 \<le> k" "k < n"
  proof -
    define j where "j = k - (2 * s - 1)"
    have idx: "2 * s - 1 + j = k" "s - 1 + j = k - s" "j < n - (2 * s - 1)"
      "j < n - s - (s - 1)" "k - s < n - s" "min n (2 * s - 1) = 2 * s - 1"
      "min n (s - 1) = s - 1" "2 * s - 1 \<le> n" "s - 1 \<le> n - s"
      using k assms(1) by (simp_all add: j_def)
    have curr: "drop (2 * s - 1) xs ! j = xs ! k" if "length xs = n" for xs :: "'b list"
      using that idx by (simp add: nth_drop)
    have prev: "drop (s - 1) (take (n - s) xs) ! j = xs ! (k - s)" if "length xs = n" for xs :: "'b list"
      using that idx by (simp add: nth_drop)
    have "fst (down_step (int s) (A', Bu')) ! k =
        map2 (*) (drop (2 * s - 1) A') (drop (s - 1) (take (n - s) A')) ! j"
      using assms k by (simp add: defs idx nth_append j_def)
    moreover have "snd (down_step (int s) (A', Bu')) ! k =
        map2 (+) (drop (2 * s - 1) Bu')
          (map2 (*) (drop (2 * s - 1) A') (drop (s - 1) (take (n - s) Bu'))) ! j"
      using assms k by (simp add: defs idx nth_append j_def)
    ultimately show ?thesis
      using assms idx curr [of A'] curr [of Bu'] prev [of A'] prev [of Bu'] by simp
  qed
  show "2 * s - 1 \<le> k \<Longrightarrow> k < n \<Longrightarrow>
           fst (down_step (int s) (A', Bu')) ! k = A' ! k * A' ! (k - s)"
    and "2 * s - 1 \<le> k \<Longrightarrow> k < n \<Longrightarrow>
           snd (down_step (int s) (A', Bu')) ! k = Bu' ! k + A' ! k * Bu' ! (k - s)"
    using combine by blast+
qed

lemma down_sweep_position_1:
  assumes "0 < s" "length A' = n" "length Bu' = n" "2 \<le> n"
  shows "snd (down_sweep (int s) (A', Bu')) ! 1 = Bu' ! 1 + A' ! 1 * Bu' ! 0"
  using assms
proof (induction s arbitrary: A' Bu' rule: less_induct)
  case (less s)
  obtain A2 Bu2 where step: "down_step (int s) (A', Bu') = (A2, Bu2)"
    by (cases "down_step (int s) (A', Bu')")
  have len: "length A2 = n" "length Bu2 = n"
    using down_step_facts(1,2) [OF less.prems(1-3)] step by simp_all
  have unfold: "down_sweep (int s) (A', Bu') = down_sweep (int (s div 2)) (A2, Bu2)"
    using less.prems(1) by (subst down_sweep.simps) (simp add: step zdiv_int del: down_sweep.simps)
  show ?case
  proof (cases "s = 1")
    case True
    have "Bu2 ! 1 = Bu' ! 1 + A' ! 1 * Bu' ! 0"
      using down_step_facts(6) [OF less.prems(1-3), of 1] less.prems(4) step True by simp
    then show ?thesis
      using True unfold by simp
  next
    case False
    then have s2: "0 < s div 2" "s div 2 < s" using less.prems(1) by simp_all
    have same: "A2 ! 1 = A' ! 1" "Bu2 ! 1 = Bu' ! 1" "Bu2 ! 0 = Bu' ! 0"
      using down_step_facts(3) [OF less.prems(1-3), of 1]
        down_step_facts(4) [OF less.prems(1-3), of 1]
        down_step_facts(4) [OF less.prems(1-3), of 0] less.prems(1,4) False step
      by simp_all
    show ?thesis
      using less.IH [OF s2(2) s2(1) len less.prems(4)] same unfold by simp
  qed
qed

lemma sequential_fold_head:
  fixes A Bu :: "'a::semiring list"
  assumes "length A = length Bu" "2 \<le> length A"
  shows "length (fst (sequential_fold (A, Bu))) = length A"
    and "length (snd (sequential_fold (A, Bu))) = length A"
    and "snd (sequential_fold (A, Bu)) ! 0 = Bu ! 0"
    and "fst (sequential_fold (A, Bu)) ! 1 = A ! 1 * A ! 0"
    and "snd (sequential_fold (A, Bu)) ! 1 = Bu ! 1 + A ! 1 * Bu ! 0"
proof -
  obtain a0 a1 as where A: "A = a0 # a1 # as"
    using assms(2) by (cases A; cases "tl A") auto
  obtain b0 b1 bs where Bu: "Bu = b0 # b1 # bs"
    using assms A by (cases Bu; cases "tl Bu") auto
  show "length (fst (sequential_fold (A, Bu))) = length A"
    and "length (snd (sequential_fold (A, Bu))) = length A"
    and "snd (sequential_fold (A, Bu)) ! 0 = Bu ! 0"
    and "fst (sequential_fold (A, Bu)) ! 1 = A ! 1 * A ! 0"
    and "snd (sequential_fold (A, Bu)) ! 1 = Bu ! 1 + A ! 1 * Bu ! 0"
    using assms
    by (simp_all add: A Bu sequential_fold_def fold_prefixes_length binary_operator_def addcmul_def)
qed

lemma associative_scan_position_1:
  fixes A Bu :: "'a::semiring list"
  assumes "length A = length Bu" "2 \<le> length A"
  shows "\<exists>A' Bu'. associative_scan (A, Bu) = Some (A', Bu') \<and>
           Bu' ! 1 = (Bu ! 1 + A ! 1 * Bu ! 0) + (A ! 1 * A ! 0) * Bu ! 0"
proof -
  obtain s where up: "up_sweep (int (length A)) 1 (A, Bu) = Some (int s, sequential_fold (A, Bu))"
    and s: "length A \<le> s"
    using up_sweep_is_sequential_fold [OF assms(1)] by blast
  obtain P_A P_Bu where P: "sequential_fold (A, Bu) = (P_A, P_Bu)"
    by (cases "sequential_fold (A, Bu)")
  have len: "length P_A = length A" "length P_Bu = length A"
    and hd: "P_Bu ! 0 = Bu ! 0" "P_A ! 1 = A ! 1 * A ! 0" "P_Bu ! 1 = Bu ! 1 + A ! 1 * Bu ! 0"
    using sequential_fold_head [OF assms] P by simp_all
  have "0 < s div 2" using s assms(2) by simp
  then have "snd (down_sweep (int (s div 2)) (P_A, P_Bu)) ! 1 = P_Bu ! 1 + P_A ! 1 * P_Bu ! 0"
    using len assms(2) by (intro down_sweep_position_1) simp_all
  moreover have "associative_scan (A, Bu) = Some (down_sweep (int (s div 2)) (P_A, P_Bu))"
    using assms(2) up P by (simp add: associative_scan_def zdiv_int del: down_sweep.simps)
  ultimately show ?thesis
    using hd by (cases "down_sweep (int (s div 2)) (P_A, P_Bu)") (auto simp del: down_sweep.simps)
qed

lemma associative_scan_matches_at_1_iff:
  fixes A Bu :: "real list"
  assumes "length A = length Bu" "2 \<le> length A"
  shows "\<exists>A' Bu'. associative_scan (A, Bu) = Some (A', Bu') \<and>
           (Bu' ! 1 = sequential_recurrence 0 A Bu ! 1 \<longleftrightarrow> A ! 1 * A ! 0 * Bu ! 0 = 0)"
proof -
  obtain a0 a1 as where A: "A = a0 # a1 # as"
    using assms(2) by (cases A; cases "tl A") auto
  obtain b0 b1 bs where Bu: "Bu = b0 # b1 # bs"
    using assms A by (cases Bu; cases "tl Bu") auto
  obtain A' Bu' where "associative_scan (A, Bu) = Some (A', Bu')"
    and "Bu' ! 1 = (Bu ! 1 + A ! 1 * Bu ! 0) + (A ! 1 * A ! 0) * Bu ! 0"
    using associative_scan_position_1 [OF assms] by blast
  then show ?thesis by (auto simp: A Bu)
qed

text \<open>
  Claim C1, evaluated at the pair \<open>A = [1, 1]\<close>, \<open>Bu = [1, 1]\<close>: the recurrence gives
  \<open>h\<^sub>0 = 1\<close> and \<open>h\<^sub>1 = 1 * 1 + 1 = 2\<close>, and so does the left fold of \<^verbatim>\<open>binary_operator\<close>;
  \<^verbatim>\<open>associative_scan\<close> returns 3 at position 1. The first loop alone has produced the
  value 2 there; the second loop combines position 1 with position 0 once more.
\<close>

theorem associative_scan_differs_from_recurrence:
  "associative_scan ([1, 1 :: real], [1, 1]) = Some ([1, 1], [1, 3]) \<and>
   up_sweep 2 1 ([1, 1 :: real], [1, 1]) = Some (2, [1, 1], [1, 2]) \<and>
   sequential_recurrence 0 [1, 1 :: real] [1, 1] = [1, 2] \<and>
   sequential_fold ([1, 1 :: real], [1, 1]) = ([1, 1], [1, 2])"
  by (simp add: associative_scan_def up_sweep.simps up_step_def down_step_def slice_def norm_index_def binary_operator_def
      addcmul_def times_list_def plus_list_def sequential_fold_def Let_def)

section \<open>Properties of the rotary encoding\<close>

lemma RotaryEmbedding_init_4: "RotaryEmbedding_init 4 = [1, 1 / 100]"
proof -
  have "(10000::real) powr (1 / 2) = 100"
    by (simp add: powr_half_sqrt real_sqrt_unique)
  then show ?thesis
    by (simp add: RotaryEmbedding_init_def arange2_def upt_rec)
qed

lemma cos_sin_mixed_angles: "(cos (1::real))\<^sup>2 + (sin (1 / 100 :: real))\<^sup>2 < 1"
proof -
  have pi: "(1::real) \<le> pi / 2" using pi_ge_two by simp
  have "sin (1 / 100 :: real) < sin 1"
    using pi by (subst sin_mono_less_eq) auto
  moreover have "0 < sin (1 / 100 :: real)" using pi by (intro sin_gt_zero) auto
  ultimately have "(sin (1 / 100 :: real))\<^sup>2 < (sin 1)\<^sup>2"
    by (intro power_strict_mono) auto
  moreover have "(cos (1::real))\<^sup>2 = 1 - (sin 1)\<^sup>2" by (simp add: cos_squared_eq)
  ultimately show ?thesis by simp
qed

text \<open>
  With \<^verbatim>\<open>dim = 2\<close> there is one pair and one angle, and the pair is rotated: it keeps its
  norm.
\<close>

lemma RotaryEmbedding_init_2: "RotaryEmbedding_init 2 = [1]"
  by (simp add: RotaryEmbedding_init_def arange2_def)

lemma rotary_row_2:
  assumes "b < length x" "h < length (x ! b)" "t < length (x ! b ! h)" "x ! b ! h ! t = [p, q]"
  shows "RotaryEmbedding_forward (RotaryEmbedding_init 2) x ! b ! h ! t =
         [p * cos (real t) - q * sin (real t), q * cos (real t) + p * sin (real t)]"
  using assms
  by (simp add: RotaryEmbedding_forward_def RotaryEmbedding_init_2 Let_def times_list_def
      plus_list_def stack_flatten_def)

lemma rotary_dim_2_preserves_norm:
  assumes "b < length x" "h < length (x ! b)" "t < length (x ! b ! h)" "x ! b ! h ! t = [p, q]"
  shows "(RotaryEmbedding_forward (RotaryEmbedding_init 2) x ! b ! h ! t ! 0)\<^sup>2 +
         (RotaryEmbedding_forward (RotaryEmbedding_init 2) x ! b ! h ! t ! 1)\<^sup>2 = p\<^sup>2 + q\<^sup>2"
proof -
  have "(p * c - q * s)\<^sup>2 + (q * c + p * s)\<^sup>2 = (p\<^sup>2 + q\<^sup>2) * (s\<^sup>2 + c\<^sup>2)" for c s :: real
    by algebra
  from this [of "cos (real t)" "sin (real t)"] show ?thesis
    by (simp add: rotary_row_2 [OF assms])
qed

text \<open>
  Claim C2, evaluated for \<^verbatim>\<open>RotaryEmbedding(4)\<close> on an input with one batch entry, one head
  and two positions, both rows being \<open>[1, 0, 0, 0]\<close>: at position 1 the pair
  \<open>(x[0], x[1]) = (1, 0)\<close> becomes \<open>(cos 1, sin (1 / 100))\<close>, whose squared norm is smaller
  than 1. The entries 0 and 1 of a row are multiplied by the cosines and sines of two
  different angles, \<open>t * inv_freq[0]\<close> and \<open>t * inv_freq[1]\<close>.
\<close>

theorem rotary_changes_pair_norm:
  "RotaryEmbedding_forward (RotaryEmbedding_init 4) [[[[1, 0, 0, 0], [1, 0, 0, 0]]]] ! 0 ! 0 ! 1
     = [cos 1, sin (1 / 100), 0, 0] \<and>
   (cos (1::real))\<^sup>2 + (sin (1 / 100 :: real))\<^sup>2 \<noteq> 1\<^sup>2 + 0\<^sup>2"
proof -
  have "RotaryEmbedding_forward [1, 1 / 100] [[[[1, 0, 0, 0], [1, 0, 0, 0]]]] ! 0 ! 0 ! 1
      = [cos 1, sin (1 / 100), 0, 0]"
    by (simp add: RotaryEmbedding_forward_def Let_def upt_rec stack_flatten_def
        times_list_def plus_list_def)
  then show ?thesis using cos_sin_mixed_angles by (simp add: RotaryEmbedding_init_4)
qed

section \<open>Properties of the retention decay\<close>

lemma Retention_t_w_nth:
  "h < length gamma_param \<Longrightarrow> i < T \<Longrightarrow> j < T \<Longrightarrow>
   Retention_t_w gamma_param T ! h ! i ! j =
     (if i \<le> j then 1 else exp (- sigmoid (gamma_param ! h) * real (i - j)))"
  by (auto simp: Retention_t_w_def Let_def max_def of_nat_diff)

text \<open>
  Claim C4: for every head \<open>h\<close>, query index \<open>i\<close> and key index \<open>j\<close>, the score is
  multiplied by 1 when \<open>i \<le> j\<close> and by \<open>exp (- gamma\<^sub>h * (i - j))\<close> when \<open>i > j\<close>, with
  \<open>gamma\<^sub>h = sigmoid (gamma_param[h])\<close>; a key in the future keeps its score.
\<close>

theorem Retention_decay_weight:
  assumes "b < length scores" "h < length (scores ! b)" "h < length gamma_param"
    and "i < length (scores ! b ! h)" "i < T" "j < length (scores ! b ! h ! i)" "j < T"
  shows "Retention_weighted_scores scores (Retention_t_w gamma_param T) ! b ! h ! i ! j =
         scores ! b ! h ! i ! j *
           (if i \<le> j then 1 else exp (- sigmoid (gamma_param ! h) * real (i - j)))"
proof -
  have "Retention_weighted_scores scores (Retention_t_w gamma_param T) ! b ! h ! i ! j =
      scores ! b ! h ! i ! j * Retention_t_w gamma_param T ! h ! i ! j"
    using assms by (simp add: Retention_weighted_scores_def times_list_def)
       (simp add: Retention_t_w_def Let_def)
  then show ?thesis using assms by (simp add: Retention_t_w_nth)
qed

theorem Retention_decay_weight_witness:
  "Retention_weighted_scores [[[[1, 2], [3, 4]]]] (Retention_t_w [0] 2) ! 0 ! 0 ! 1 ! 0 = 3 * exp (- (1 / 2)) \<and>
   Retention_weighted_scores [[[[1, 2], [3, 4]]]] (Retention_t_w [0] 2) ! 0 ! 0 ! 0 ! 1 = 2"
  using Retention_decay_weight [of 0 "[[[[1, 2], [3, 4]]]]" 0 "[0]" 1 2 0]
    Retention_decay_weight [of 0 "[[[[1, 2], [3, 4]]]]" 0 "[0]" 0 2 1]
  by (simp add: sigmoid_def)

section \<open>Properties of the selective state-space mixer\<close>

lemma take_padded:
  assumes "n \<le> p + (t + 1)" "t < length xs"
  shows "take n (replicate p (0::real) @ xs @ zs) = take n (replicate p 0 @ take (t + 1) xs)"
proof -
  from assms have "n - p \<le> t + 1" "n - p \<le> length xs" by simp_all
  then show ?thesis by (simp add: min_def)
qed

lemma take_drop_window: "take k (drop t xs) = drop t (take (t + k) xs)"
  by (simp add: drop_take)

text \<open>
  Output position \<open>t\<close> of one channel reads the input up to position \<open>t\<close> only, when the
  kernel is no longer than the padding plus one.
\<close>

lemma conv1d_channel_nth:
  assumes "t < length xs" "length w \<le> p + 1"
  shows "conv1d_channel w b p xs ! t =
         sum_list (w * drop t (take (t + length w) (replicate p 0 @ take (t + 1) xs))) + b"
proof -
  define xp where "xp = replicate p (0::real) @ xs @ replicate p 0"
  have "t < length xp + 1 - length w"
    using assms by (simp add: xp_def)
  then have "conv1d_channel w b p xs ! t = sum_list (w * take (length w) (drop t xp)) + b"
    by (simp add: conv1d_channel_def Let_def xp_def [symmetric] del: replicate_append_same)
  moreover have "take (length w) (drop t xp) = drop t (take (t + length w) xp)"
    by (rule take_drop_window)
  moreover have "take (t + length w) xp = take (t + length w) (replicate p 0 @ take (t + 1) xs)"
    unfolding xp_def using assms by (intro take_padded) auto
  ultimately show ?thesis by simp
qed

lemma conv1d_channel_length:
  assumes "length w \<le> p + 1"
  shows "length xs \<le> length (conv1d_channel w b p xs)"
  using assms by (simp add: conv1d_channel_def Let_def)

lemma conv1d_channel_causal:
  assumes "t < length xs" "t < length ys" "take (t + 1) xs = take (t + 1) ys" "length w \<le> p + 1"
  shows "conv1d_channel w b p xs ! t = conv1d_channel w b p ys ! t"
  using assms by (simp add: conv1d_channel_nth)

text \<open>Line 141 on one batch entry: row \<open>t\<close> of the result, channel by channel.\<close>

lemma conv_entry_nth:
  assumes len: "length xb = T" and rect: "\<forall>row\<in>set xb. length row = E"
    and t: "t < T" and E: "0 < E"
    and cw: "length (conv_weight c) = E" and cb: "length (conv_bias c) = E"
    and k: "\<forall>w\<in>set (conv_weight c). length w \<le> padding c + 1"
  shows "transpose (map (take T) (Conv1d_forward c (transpose xb))) ! t =
     map (\<lambda>i. conv1d_channel (conv_weight c ! i) (conv_bias c ! i) (padding c)
                (map (\<lambda>j. xb ! j ! i) [0..<T]) ! t) [0..<E]"
proof -
  have tr: "transpose xb = map (\<lambda>i. map (\<lambda>j. xb ! j ! i) [0..<T]) [0..<E]"
    using len rect t by (subst transpose_rectangle [where n = E]) auto
  define M where "M = map (take T) (Conv1d_forward c (transpose xb))"
  have lenM: "length M = E"
    by (simp add: M_def Conv1d_forward_def tr cw cb)
  have Mi: "M ! i = take T (conv1d_channel (conv_weight c ! i) (conv_bias c ! i) (padding c)
      (map (\<lambda>j. xb ! j ! i) [0..<T]))"
    if "i < E" for i
    using that by (simp add: M_def Conv1d_forward_def tr cw cb)
  have lenMi: "length (M ! i) = T" if "i < E" for i
  proof -
    have "conv_weight c ! i \<in> set (conv_weight c)" using that cw by simp
    then have "length (conv_weight c ! i) \<le> padding c + 1" using k by blast
    then have "T \<le> length (conv1d_channel (conv_weight c ! i) (conv_bias c ! i) (padding c)
        (map (\<lambda>j. xb ! j ! i) [0..<T]))"
      using conv1d_channel_length [of "conv_weight c ! i" "padding c" "map (\<lambda>j. xb ! j ! i) [0..<T]"]
      by simp
    then show ?thesis using that by (simp add: Mi)
  qed
  have "transpose M = map (\<lambda>i. map (\<lambda>j. M ! j ! i) [0..<length M]) [0..<T]"
    using lenM lenMi E by (intro transpose_rectangle) auto
  then have "transpose M ! t = map (\<lambda>j. M ! j ! t) [0..<E]"
    using t lenM by simp
  also have "\<dots> = map (\<lambda>i. conv1d_channel (conv_weight c ! i) (conv_bias c ! i) (padding c)
      (map (\<lambda>j. xb ! j ! i) [0..<T]) ! t) [0..<E]"
    using t by (simp add: Mi)
  finally show ?thesis by (simp add: M_def)
qed

text \<open>
  Claim C5: the convolution stage of line 141 is causal. Two inputs of the convolution
  whose batch entry \<open>b\<close> agrees on all positions up to \<open>t\<close> (their time lengths may
  differ) give the same output at position \<open>t\<close> of that entry.
\<close>

theorem mamba_conv_causal:
  assumes m: "MambaBlock_conv_shapes m"
    and x: "has_shape3 x B T (embed_dim m)" and x': "has_shape3 x' B T' (embed_dim m)"
    and b: "b < B" and t: "t < T" "t < T'"
    and agree: "\<forall>s\<le>t. x ! b ! s = x' ! b ! s"
  shows "mamba_conv m T x ! b ! t = mamba_conv m T' x' ! b ! t"
proof -
  let ?c = "conv1d m" and ?E = "embed_dim m"
  have k: "\<forall>w\<in>set (conv_weight ?c). length w \<le> padding ?c + 1"
    using m by (simp add: MambaBlock_conv_shapes_def)
  have xb: "length (x ! b) = T" "\<forall>row\<in>set (x ! b). length row = ?E"
    using x b by (auto simp: has_shape3_def)
  have xb': "length (x' ! b) = T'" "\<forall>row\<in>set (x' ! b). length row = ?E"
    using x' b by (auto simp: has_shape3_def)
  have col: "take (t + 1) (map (\<lambda>j. x ! b ! j ! i) [0..<T]) =
      take (t + 1) (map (\<lambda>j. x' ! b ! j ! i) [0..<T'])" for i
    using t agree by (simp add: take_map min_def)
  have chan: "conv1d_channel (conv_weight ?c ! i) (conv_bias ?c ! i) (padding ?c)
        (map (\<lambda>j. x ! b ! j ! i) [0..<T]) ! t =
      conv1d_channel (conv_weight ?c ! i) (conv_bias ?c ! i) (padding ?c)
        (map (\<lambda>j. x' ! b ! j ! i) [0..<T']) ! t"
    if "i < ?E" for i
  proof -
    have "conv_weight ?c ! i \<in> set (conv_weight ?c)"
      using that m by (simp add: MambaBlock_conv_shapes_def)
    then have "length (conv_weight ?c ! i) \<le> padding ?c + 1" using k by blast
    then show ?thesis using t col [of i] by (intro conv1d_channel_causal) simp_all
  qed
  have "mamba_conv m T x ! b ! t = transpose (map (take T) (Conv1d_forward ?c (transpose (x ! b)))) ! t"
    using x b by (simp add: mamba_conv_def has_shape3_def)
  also have "\<dots> = map (\<lambda>i. conv1d_channel (conv_weight ?c ! i) (conv_bias ?c ! i) (padding ?c)
      (map (\<lambda>j. x ! b ! j ! i) [0..<T]) ! t) [0..<?E]"
    using m xb t(1) k by (intro conv_entry_nth) (simp_all add: MambaBlock_conv_shapes_def)
  also have "\<dots> = map (\<lambda>i. conv1d_channel (conv_weight ?c ! i) (conv_bias ?c ! i) (padding ?c)
      (map (\<lambda>j. x' ! b ! j ! i) [0..<T']) ! t) [0..<?E]"
    using chan by simp
  also have "\<dots> = transpose (map (take T') (Conv1d_forward ?c (transpose (x' ! b)))) ! t"
    using m xb' t(2) k by (intro conv_entry_nth [symmetric]) (simp_all add: MambaBlock_conv_shapes_def)
  also have "\<dots> = mamba_conv m T' x' ! b ! t"
    using x' b by (simp add: mamba_conv_def has_shape3_def)
  finally show ?thesis .
qed

theorem mamba_conv_causal_witness:
  "MambaBlock_conv_shapes example_block \<and>
   has_shape3 [[[1::real], [2]]] 1 2 (embed_dim example_block) \<and>
   has_shape3 [[[1::real], [5], [7]]] 1 3 (embed_dim example_block) \<and>
   mamba_conv example_block 2 [[[1], [2]]] ! 0 ! 0 = mamba_conv example_block 3 [[[1], [5], [7]]] ! 0 ! 0"
proof -
  have m: "MambaBlock_conv_shapes example_block"
    by (simp add: MambaBlock_conv_shapes_def example_block_def)
  have x: "has_shape3 [[[1::real], [2]]] 1 2 (embed_dim example_block)"
    and x': "has_shape3 [[[1::real], [5], [7]]] 1 3 (embed_dim example_block)"
    by (simp_all add: has_shape3_def example_block_def)
  show ?thesis
    using m x x' mamba_conv_causal [OF m x x', of 0 0] by simp
qed

lemma transpose_single: "transpose [[a]] = [[a]]"
  by simp

lemma zk_x_in_res: "mamba_x_in_res zero_kernel_block [[[1]]] = ([[[1]]], [[[0]]])"
  by (simp add: zero_kernel_block_def example_block_def mamba_x_in_res_def Linear_forward_def chunk2_def times_list_def)

lemma zk_x_conv: "mamba_x_conv zero_kernel_block [[[1]]] = [[[0]]]"
  by (simp add: mamba_x_conv_def shape3_def zk_x_in_res mamba_conv_def transpose_single)
     (simp add: zero_kernel_block_def example_block_def Conv1d_forward_def conv1d_channel_def
        times_list_def upt_rec numeral_eq_Suc silu_def)

lemma zk_delta_B_C: "mamba_delta_B_C zero_kernel_block [[[0]]] = ([[[ln 2]]], [[[1]]], [[[1]]])"
  by (simp add: zero_kernel_block_def example_block_def mamba_delta_B_C_def Linear_forward_def
        times_list_def softplus_def Let_def)

lemma zk_elems: "selective_scan_elems zero_kernel_block [[[u]]] [[[ln 2]]] [[[1]]] = ([[[[1 / 2]]]], [[[[ln 2 * u]]]])"
  by (simp add: zero_kernel_block_def example_block_def selective_scan_elems_def exp_minus ln_div)

lemma zk_scan: "selective_scan zero_kernel_block [[[u]]] [[[ln 2]]] [[[1]]] [[[1]]] = Some [[[ln 2 * u]]]"
  by (simp add: selective_scan_def zk_elems shape3_def transpose_single associative_scan_def times_list_def)

lemma zk_pre_gate: "mamba_pre_gate zero_kernel_block [[[1]]] = Some [[[0]]]"
  by (simp add: mamba_pre_gate_def zk_x_conv zk_delta_B_C zk_scan)
     (simp add: zero_kernel_block_def example_block_def times_list_def plus_list_def)

lemma zk_spec_pre_gate: "spec_pre_gate zero_kernel_block [[[1]]] = Some [[[ln 2 + 1]]]"
  by (simp add: spec_pre_gate_def zk_x_in_res zk_x_conv zk_delta_B_C zk_scan)
     (simp add: zero_kernel_block_def example_block_def times_list_def plus_list_def)

text \<open>
  Claim C3 as stated, at the block with the zero kernel and the input \<open>[[[1]]]\<close>: there
  \<^verbatim>\<open>x_in\<close> is 1 and \<^verbatim>\<open>x_conv\<close> is 0, so the driven term of the code is 0 where the claim's
  is \<open>ln 2\<close>, and the value before the gate is 0 where the claim's is \<open>ln 2 + 1\<close>.
\<close>

theorem mamba_uses_x_conv_not_x_in:
  "mamba_deltaB_u zero_kernel_block [[[1]]] \<noteq> spec_deltaB_u zero_kernel_block [[[1]]] \<and>
   mamba_pre_gate zero_kernel_block [[[1]]] \<noteq> spec_pre_gate zero_kernel_block [[[1]]]"
proof -
  have "mamba_deltaB_u zero_kernel_block [[[1]]] = [[[[0]]]]"
    by (simp add: mamba_deltaB_u_def zk_x_conv zk_delta_B_C zk_elems)
  moreover have "spec_deltaB_u zero_kernel_block [[[1]]] = [[[[ln 2]]]]"
    by (simp add: spec_deltaB_u_def zk_x_in_res zk_x_conv zk_delta_B_C zk_elems)
  moreover have "0 < ln (2::real)"
    by (simp add: ln_gt_zero)
  then have "ln (2::real) \<noteq> 0" "ln (2::real) + 1 \<noteq> 0"
    by linarith+
  ultimately show ?thesis
    by (simp add: zk_pre_gate zk_spec_pre_gate)
qed

lemma ex_x_in_res: "mamba_x_in_res example_block [[[1]]] = ([[[1]]], [[[0]]])"
  by (simp add: example_block_def mamba_x_in_res_def Linear_forward_def chunk2_def times_list_def)

lemma ex_x_conv: "mamba_x_conv example_block [[[1]]] = [[[silu 4]]]"
  by (simp add: mamba_x_conv_def shape3_def ex_x_in_res mamba_conv_def transpose_single)
     (simp add: example_block_def Conv1d_forward_def conv1d_channel_def
        times_list_def upt_rec numeral_eq_Suc)

lemma ex_delta_B_C: "mamba_delta_B_C example_block [[[u]]] = ([[[ln 2]]], [[[1]]], [[[1]]])"
  by (simp add: example_block_def mamba_delta_B_C_def Linear_forward_def
        times_list_def softplus_def Let_def)

lemma ex_elems: "selective_scan_elems example_block [[[u]]] [[[ln 2]]] [[[1]]] = ([[[[1 / 2]]]], [[[[ln 2 * u]]]])"
  by (simp add: example_block_def selective_scan_elems_def exp_minus ln_div)

lemma ex_scan: "selective_scan example_block [[[u]]] [[[ln 2]]] [[[1]]] [[[1]]] = Some [[[ln 2 * u]]]"
  by (simp add: selective_scan_def ex_elems shape3_def transpose_single associative_scan_def times_list_def)

lemma ex_pre_gate: "mamba_pre_gate example_block [[[1]]] = Some [[[ln 2 * silu 4 + silu 4]]]"
  by (simp add: mamba_pre_gate_def ex_x_conv ex_delta_B_C ex_scan)
     (simp add: example_block_def times_list_def plus_list_def)

lemma deltaB_u_entry:
  assumes "b < length u" "b < length delta" "b < length B"
    and "t < length (u ! b)" "t < length (delta ! b)" "t < length (B ! b)"
    and "d < length (u ! b ! t)" "d < length (delta ! b ! t)" "n < length (B ! b ! t)"
  shows "snd (selective_scan_elems m u delta B) ! b ! t ! d ! n = (delta ! b ! t ! d * B ! b ! t ! n) * u ! b ! t ! d"
  using assms by (simp add: selective_scan_elems_def Let_def)

lemma mamba_delta_B_C_lengths:
  assumes "mamba_delta_B_C m x_conv = (delta, B_param, C_param)"
  shows "length delta = length x_conv" "length B_param = length x_conv"
    "b < length x_conv \<Longrightarrow> length (delta ! b) = length (x_conv ! b)"
    "b < length x_conv \<Longrightarrow> length (B_param ! b) = length (x_conv ! b)"
  using assms by (auto simp: mamba_delta_B_C_def Let_def)

text \<open>
  Claim C3, amended: the driven term handed to the scan is
  \<open>deltaB_u = (delta \<otimes> B_param) \<otimes> x_conv\<close> and the value before the gate adds the skip
  term \<open>x_conv * D\<close>, where \<^verbatim>\<open>x_conv\<close> is the first half of the input projection after the
  depthwise convolution and SiLU.
\<close>

theorem mamba_driven_term_and_skip:
  assumes xc: "x_conv = mamba_x_conv m x"
    and dbc: "mamba_delta_B_C m x_conv = (delta, B_param, C_param)"
    and ys: "selective_scan m x_conv delta B_param C_param = Some ys"
    and b: "b < length x_conv" "b < length ys"
    and t: "t < length (x_conv ! b)" "t < length (ys ! b)"
    and d: "d < length (x_conv ! b ! t)" "d < length (delta ! b ! t)" "d < length (ys ! b ! t)"
      "d < length (skip_D m)"
    and n: "n < length (B_param ! b ! t)"
  shows "mamba_deltaB_u m x ! b ! t ! d ! n =
           (delta ! b ! t ! d * B_param ! b ! t ! n) * x_conv ! b ! t ! d \<and>
         (\<exists>y. mamba_pre_gate m x = Some y \<and>
              y ! b ! t ! d = ys ! b ! t ! d + x_conv ! b ! t ! d * skip_D m ! d)"
proof
  have "mamba_deltaB_u m x = snd (selective_scan_elems m x_conv delta B_param)"
    using dbc by (simp add: mamba_deltaB_u_def xc [symmetric])
  then show "mamba_deltaB_u m x ! b ! t ! d ! n =
      (delta ! b ! t ! d * B_param ! b ! t ! n) * x_conv ! b ! t ! d"
    using b t d n mamba_delta_B_C_lengths [OF dbc] by (simp add: deltaB_u_entry)
next
  let ?skip = "map (map (\<lambda>v. v * skip_D m)) x_conv"
  have "mamba_pre_gate m x = Some (ys + ?skip)"
    using dbc ys by (simp add: mamba_pre_gate_def xc [symmetric])
  moreover have "(ys + ?skip) ! b ! t ! d = ys ! b ! t ! d + x_conv ! b ! t ! d * skip_D m ! d"
    using b t d by (simp add: plus_list_def times_list_def)
  ultimately show "\<exists>y. mamba_pre_gate m x = Some y \<and>
      y ! b ! t ! d = ys ! b ! t ! d + x_conv ! b ! t ! d * skip_D m ! d"
    by blast
qed

theorem mamba_driven_term_and_skip_witness:
  "mamba_deltaB_u example_block [[[1]]] ! 0 ! 0 ! 0 ! 0 = (ln 2 * 1) * silu 4 \<and>
   (\<exists>y. mamba_pre_gate example_block [[[1]]] = Some y \<and> y ! 0 ! 0 ! 0 = ln 2 * silu 4 + silu 4 * 1)"
  using mamba_driven_term_and_skip [of "[[[silu 4]]]" example_block "[[[1]]]" "[[[ln 2]]]" "[[[1]]]" "[[[1]]]"
      "[[[ln 2 * silu 4]]]" 0 0 0 0]
  by (simp add: ex_x_conv ex_delta_B_C ex_scan) (simp add: example_block_def)






section \<open>Properties of the shapes\<close>

lemma and_then_simps [simp]:
  "and_then (Returns x) f = f x"
  "and_then (Raises e) f = Raises e"
  "and_then None f = None"
  by (simp_all add: and_then_def)

lemma broadcast_rev_same: "broadcast_rev xs xs = Some xs"
  by (induction xs) auto

lemma broadcast_same [simp]: "broadcast s s = Returns s"
  by (simp add: broadcast_def broadcast_rev_same)

lemma int_filter_nonneg: "filter (\<lambda>d. d \<noteq> - 1) (map int dims) = map int dims"
  by (induction dims) auto

lemma int_filter_neg: "filter (\<lambda>d. d = - 1) (map int dims) = []"
  by (induction dims) auto

lemma list_ex_int: "\<not> list_ex (\<lambda>d. d < - 1) (map int dims)"
  by (induction dims) auto

lemma view_exact:
  "view s (map int dims) = (if numel s = prod_list dims then Returns dims else Raises RuntimeError)"
  by (simp add: view_def int_filter_nonneg int_filter_neg list_ex_int Let_def comp_def)

lemma view_infer_last:
  "view s (map int pre @ [- 1]) =
     (if prod_list pre = 0 \<or> numel s mod prod_list pre \<noteq> 0 then Raises RuntimeError
      else Returns (pre @ [numel s div prod_list pre]))"
  by (auto simp: view_def int_filter_nonneg int_filter_neg list_ex_int Let_def comp_def list_ex_iff)

lemma RMSNorm_forward_3: "RMSNorm_forward \<lparr>weight_shape = [E]\<rparr> [B, T, E] = Returns [B, T, E]"
  by (simp add: RMSNorm_forward_def mean_last_keepdim_def broadcast_def)

lemma Linear_forward_shape_3:
  "Linear_forward_shape \<lparr>in_features = E, out_features = F\<rparr> [B, T, E] = Returns [B, T, F]"
  by (simp add: Linear_forward_shape_def)



lemma view4:
  "view s [int a, int b, int c, int d] =
     (if numel s = a * b * c * d then Returns [a, b, c, d] else Raises RuntimeError)"
  using view_exact [of s "[a, b, c, d]"] by (simp add: mult.assoc)

lemma view3_infer_last:
  "view s [int a, int b, - 1] =
     (if a * b = 0 \<or> numel s mod (a * b) \<noteq> 0 then Raises RuntimeError
      else Returns [a, b, numel s div (a * b)])"
  using view_infer_last [of s "[a, b]"] by simp








lemma numel_simps [simp]:
  "numel [a, b, c] = a * b * c"
  "numel [a, b, c, d] = a * b * c * d"
  "numel [a] = a"
  by (simp_all add: numel_def mult.assoc)









lemma MambaBlock_init_Returns:
  "MambaBlock_init e 16 4 None = (if e = 0 then Raises ValueError else Returns (mamba_sizes e))"
  by (simp add: MambaBlock_init_def Linear_init_def Conv1d_init_def mamba_sizes_def Let_def)


text \<open>The constructors, and a block on a well-shaped input.\<close>

lemma Retention_init_Returns:
  "Retention_init e h = (if h = 0 then Raises ZeroDivisionError else Returns (retention_sizes e h))"
  by (simp add: Retention_init_def Linear_init_def RotaryEmbedding_sizes_init_def retention_sizes_def)


lemma DillNetBlock_init_Returns:
  "DillNetBlock_init e h mamba ffn =
     (if mamba \<and> e = 0 then Raises ValueError
      else if \<not> mamba \<and> h = 0 then Raises ZeroDivisionError
      else Returns (block_sizes e h mamba ffn))"
  by (simp add: DillNetBlock_init_def RMSNorm_init_def MambaBlock_init_Returns Retention_init_Returns
      Linear_init_def block_sizes_def Let_def)


lemma build_blocks_Returns:
  "build_blocks f is = Returns bs \<Longrightarrow>
   length bs = length is \<and> (\<forall>k<length is. f (is ! k) = Returns (bs ! k))"
proof (induction "is" arbitrary: bs)
  case Nil
  then show ?case by simp
next
  case (Cons i "is")
  from Cons.prems obtain b bs' where b: "f i = Returns b" and bs': "build_blocks f is = Returns bs'"
    and bs: "bs = b # bs'"
    by (auto simp: and_then_def split: option.splits sum.splits)
  from Cons.IH [OF bs'] have "length bs' = length is" "\<forall>k<length is. f (is ! k) = Returns (bs' ! k)"
    by simp_all
  then show ?case using b bs by (auto simp: nth_Cons split: nat.splits)
qed

lemma build_blocks_map:
  "(\<forall>i\<in>set is. f i = Returns (g i)) \<Longrightarrow> build_blocks f is = Returns (map g is)"
  by (induction "is") simp_all


lemma DillNet_init_blocks:
  assumes "DillNet_init e depth h ffn = Returns net"
  shows "length (blocks net) = depth"
    and "\<forall>i<depth. DillNetBlock_init e h (i mod 2 \<noteq> 0) ffn = Returns (blocks net ! i)"
    and "final_norm net = \<lparr>weight_shape = [e]\<rparr>"
proof -
  from assms obtain bs where
    bs: "build_blocks (\<lambda>i. DillNetBlock_init e h (i mod 2 \<noteq> 0) ffn) [0..<depth] = Returns bs"
    and net: "net = \<lparr>blocks = bs, final_norm = \<lparr>weight_shape = [e]\<rparr>\<rparr>"
    by (auto simp: DillNet_init_def RMSNorm_init_def and_then_def split: option.splits sum.splits)
  from build_blocks_Returns [OF bs] net
  show "length (blocks net) = depth"
    and "\<forall>i<depth. DillNetBlock_init e h (i mod 2 \<noteq> 0) ffn = Returns (blocks net ! i)"
    and "final_norm net = \<lparr>weight_shape = [e]\<rparr>"
    by simp_all
qed

text \<open>When the heads do not divide the embedding dimension, \<^verbatim>\<open>Retention.forward\<close> raises: at the first \<^verbatim>\<open>view\<close> if the input has entries, at the \<^verbatim>\<open>reshape\<close> of line 71 at the latest otherwise.\<close>

lemma raises_simps [simp]: "raises (Raises e)" "\<not> raises (Returns x)" "\<not> raises None"
  by (simp_all add: raises_def)

lemma halts_simps [simp]: "halts (Raises e)" "halts (Returns x)" "\<not> halts None"
  by (simp_all add: halts_def)

lemma raises_and_thenI:
  "halts r \<Longrightarrow> (\<And>x. r = Returns x \<Longrightarrow> raises (f x)) \<Longrightarrow> raises (and_then r f)"
  by (cases r) (auto simp: and_then_def split: sum.splits)

lemma halts_and_thenI:
  "halts r \<Longrightarrow> (\<And>x. r = Returns x \<Longrightarrow> halts (f x)) \<Longrightarrow> halts (and_then r f)"
  by (cases r) (auto simp: and_then_def split: sum.splits)

lemma shape_ops_halt [simp]:
  "halts (broadcast a b)"
  "halts (view s target)"
  "halts (transpose_axes s i j)"
  "halts (unsqueeze s d)"
  "halts (Linear_forward_shape l x)"
  "halts (cat2 a b d)"
  "halts (slice_last_step2 s k)"
  "halts (stack2_last a b)"
  "halts (flatten_last2 s)"
  by (simp_all add: broadcast_def view_def transpose_axes_def unsqueeze_def Linear_forward_shape_def
      cat2_def slice_last_step2_def stack2_last_def flatten_last2_def Let_def split: option.splits)

lemma matmul_halts [simp]: "halts (matmul a b)"
  unfolding matmul_def Let_def by (auto intro!: halts_and_thenI)

lemma RotaryEmbedding_forward_shape_halts [simp]: "halts (RotaryEmbedding_forward_shape r x)"
  unfolding RotaryEmbedding_forward_shape_def Let_def by (auto intro!: halts_and_thenI)

lemma Retention_forward_shape_raises:
  assumes "\<not> h dvd e"
  shows "raises (Retention_forward_shape (retention_sizes e h) [B, T, e])"
proof (cases "B * T = 0")
  case True
  show ?thesis
    unfolding Retention_forward_shape_def list.case
    by (intro raises_and_thenI) (simp_all add: view3_infer_last True)
next
  case False
  have "h * (e div h) \<noteq> e" using assms by (metis dvd_triv_left)
  then have "B * T * e \<noteq> B * T * h * (e div h)"
    using False by (simp add: mult.assoc)
  then have v: "view [B, T, e] [int B, int T, int h, int (e div h)] = Raises RuntimeError"
    by (simp add: view4)
  show ?thesis
    by (simp add: Retention_forward_shape_def retention_sizes_def Linear_forward_shape_3 v)
qed

lemma raises_and_then_first: "raises r \<Longrightarrow> raises (and_then r f)"
  by (auto simp: raises_def and_then_def split: option.splits sum.splits)

lemma DillNet_init_Returns:
  "DillNet_init e depth h ffn =
     (if 0 < depth \<and> h = 0 then Raises ZeroDivisionError
      else if 1 < depth \<and> e = 0 then Raises ValueError
      else Returns \<lparr>blocks = map (\<lambda>i. block_sizes e h (i mod 2 \<noteq> 0) ffn) [0..<depth],
                    final_norm = \<lparr>weight_shape = [e]\<rparr>\<rparr>)"
proof -
  let ?f = "\<lambda>i. DillNetBlock_init e h (i mod 2 \<noteq> 0) ffn"
  consider (zero_heads) "0 < depth" "h = 0" | (zero_dim) "1 < depth" "h \<noteq> 0" "e = 0"
    | (ok) "depth = 0 \<or> h \<noteq> 0" "depth \<le> 1 \<or> e \<noteq> 0"
    by fastforce
  then show ?thesis
  proof cases
    case zero_heads
    then have "[0..<depth] = 0 # [1..<depth]" by (simp add: upt_conv_Cons)
    then show ?thesis using zero_heads
      by (simp add: DillNet_init_def DillNetBlock_init_Returns)
  next
    case zero_dim
    then have "[0..<depth] = 0 # 1 # [2..<depth]" by (simp add: upt_conv_Cons numeral_2_eq_2)
    then show ?thesis using zero_dim
      by (simp add: DillNet_init_def DillNetBlock_init_Returns)
  next
    case ok
    have "\<forall>i\<in>set [0..<depth]. ?f i = Returns (block_sizes e h (i mod 2 \<noteq> 0) ffn)"
    proof
      fix i assume "i \<in> set [0..<depth]"
      then have i: "i < depth" by simp
      define mamba where "mamba = (i mod 2 \<noteq> 0)"
      have "mamba \<Longrightarrow> e \<noteq> 0"
        using ok(2) i unfolding mamba_def by (cases "i = 0") auto
      moreover have "h \<noteq> 0" using ok(1) i by auto
      ultimately have "DillNetBlock_init e h mamba ffn = Returns (block_sizes e h mamba ffn)"
        by (auto simp: DillNetBlock_init_Returns)
      then show "?f i = Returns (block_sizes e h (i mod 2 \<noteq> 0) ffn)"
        unfolding mamba_def .
    qed
    then have "build_blocks ?f [0..<depth] = Returns (map (\<lambda>i. block_sizes e h (i mod 2 \<noteq> 0) ffn) [0..<depth])"
      by (rule build_blocks_map)
    then show ?thesis using ok
      by (auto simp: DillNet_init_def RMSNorm_init_def)
  qed
qed

section \<open>Properties of the network\<close>

text \<open>
  Claim C6: a network that \<^verbatim>\<open>DillNet.__init__\<close> returns has \<^verbatim>\<open>depth\<close> blocks; the block at
  every even index has the Retention mixer and the block at every odd index has the
  MambaBlock mixer, whatever the embedding dimension, the heads and the feed-forward
  dimension are.
\<close>

theorem DillNet_alternates_mixers:
  assumes "DillNet_init e depth h ffn = Returns net"
  shows "length (blocks net) = depth \<and>
         (\<forall>i<depth. (even i \<longrightarrow> is_Retention (attention_layer (blocks net ! i))) \<and>
                    (odd i \<longrightarrow> is_Mamba (attention_layer (blocks net ! i))))"
proof -
  have "(even i \<longrightarrow> is_Retention (attention_layer (blocks net ! i))) \<and>
        (odd i \<longrightarrow> is_Mamba (attention_layer (blocks net ! i)))" if "i < depth" for i
  proof -
    have "DillNetBlock_init e h (i mod 2 \<noteq> 0) ffn = Returns (blocks net ! i)"
      using DillNet_init_blocks(2) [OF assms] that by blast
    then have "blocks net ! i = block_sizes e h (i mod 2 \<noteq> 0) ffn"
      by (simp add: DillNetBlock_init_Returns split: if_splits)
    then show ?thesis
      by (simp add: block_sizes_def Let_def odd_iff_mod_2_eq_one even_iff_mod_2_eq_zero)
  qed
  then show ?thesis using DillNet_init_blocks(1) [OF assms] by blast
qed

theorem DillNet_alternates_mixers_witness:
  "DillNet_init 32 6 4 None =
     Returns \<lparr>blocks = map (\<lambda>i. block_sizes 32 4 (i mod 2 \<noteq> 0) None) [0..<6],
              final_norm = \<lparr>weight_shape = [32]\<rparr>\<rparr> \<and>
   map (\<lambda>b. is_Retention (attention_layer b)) (map (\<lambda>i. block_sizes 32 4 (i mod 2 \<noteq> 0) None) [0..<6])
     = [True, False, True, False, True, False]"
proof -
  let ?net = "\<lparr>blocks = map (\<lambda>i. block_sizes 32 4 (i mod 2 \<noteq> 0) None) [0..<6],
              final_norm = \<lparr>weight_shape = [32]\<rparr>\<rparr>"
  have init: "DillNet_init 32 6 4 None = Returns ?net"
    by (simp add: DillNet_init_Returns)
  from DillNet_alternates_mixers [OF init]
  have "\<forall>i<6. (even i \<longrightarrow> is_Retention (attention_layer (blocks ?net ! i))) \<and>
               (odd i \<longrightarrow> is_Mamba (attention_layer (blocks ?net ! i)))"
    by blast
  then show ?thesis using init
    by (simp add: upt_rec block_sizes_def)
qed

text \<open>
  Claim C8 as stated, at \<^verbatim>\<open>DillNet(embed_dim=5, depth=0, heads=2)\<close>: 2 does not divide 5,
  the constructor returns a network without blocks, and \<^verbatim>\<open>forward\<close> on an input of shape
  (2, 10, 5) returns.
\<close>

theorem DillNet_without_blocks_returns:
  "\<not> (2::nat) dvd 5 \<and>
   DillNet_init 5 0 2 None = Returns \<lparr>blocks = [], final_norm = \<lparr>weight_shape = [5]\<rparr>\<rparr> \<and>
   DillNet_forward \<lparr>blocks = [], final_norm = \<lparr>weight_shape = [5]\<rparr>\<rparr> [2, 10, 5] = Returns [2, 10, 5]"
  by (simp add: DillNet_init_Returns DillNet_forward_def RMSNorm_forward_3)

text \<open>
  Claim C8, amended: if \<^verbatim>\<open>embed_dim\<close> is not divisible by \<^verbatim>\<open>heads\<close> and the network has at
  least one block, then the constructor raises, or it returns a network whose \<^verbatim>\<open>forward\<close>
  raises on every input of shape (batch, time, embed_dim).
\<close>

theorem DillNet_raises_when_heads_do_not_divide:
  assumes "\<not> h dvd e" "0 < depth"
  shows "raises (DillNet_init e depth h ffn) \<or>
         (\<exists>net. DillNet_init e depth h ffn = Returns net \<and>
                (\<forall>B T. raises (DillNet_forward net [B, T, e])))"
proof (cases "h = 0")
  case True
  then show ?thesis using assms by (simp add: DillNet_init_Returns)
next
  case False
  from assms(1) have e: "e \<noteq> 0" by (metis dvd_0_right)
  let ?net = "\<lparr>blocks = map (\<lambda>i. block_sizes e h (i mod 2 \<noteq> 0) ffn) [0..<depth],
              final_norm = \<lparr>weight_shape = [e]\<rparr>\<rparr>"
  have init: "DillNet_init e depth h ffn = Returns ?net"
    using False e by (simp add: DillNet_init_Returns)
  have first: "[0..<depth] = 0 # [1..<depth]"
    using assms(2) by (simp add: upt_conv_Cons)
  have "raises (DillNet_forward ?net [B, T, e])" for B T
  proof -
    have "raises (DillNetBlock_forward (block_sizes e h False ffn) [B, T, e])"
      by (simp add: DillNetBlock_forward_def block_sizes_def Let_def RMSNorm_forward_3
          raises_and_then_first Retention_forward_shape_raises [OF assms(1)])
    then show ?thesis
      by (simp add: DillNet_forward_def first raises_and_then_first)
  qed
  with init show ?thesis by blast
qed

theorem DillNet_raises_when_heads_do_not_divide_witness:
  "\<not> (4::nat) dvd 6 \<and> (0::nat) < 2 \<and>
   (raises (DillNet_init 6 2 4 None) \<or>
    (\<exists>net. DillNet_init 6 2 4 None = Returns net \<and> (\<forall>B T. raises (DillNet_forward net [B, T, 6]))))"
  using DillNet_raises_when_heads_do_not_divide [of 4 6 2 None] by simp




end
